theory Spec2Isabelle
  imports Main
begin

section \<open>The command line dispatcher of \<^verbatim>\<open>cli/cli.go\<close>\<close>

text \<open>
  The Go package \<^verbatim>\<open>cli\<close> dispatches an argument vector to a method of one of its
  registered handlers. The method is found by reflection on a name built from the first
  one or two arguments. This theory embeds the package function by function and proves
  the properties its specification states.

  What the Go code leaves to its callers is kept abstract:
  \<^item> the state that handler code owns is a value of an arbitrary type \<open>'w\<close>; a command
    function, an \<^verbatim>\<open>Initialize\<close> hook and a custom \<^verbatim>\<open>Usage\<close> function transform it.
    Handler code is taken to return normally and not to write to the \<^verbatim>\<open>Cli\<close>;
  \<^item> the error values of handler code are values of an arbitrary type \<open>'e\<close>;
  \<^item> what the dispatcher itself does to the outside (a hook called, a command function
    called, a message written, a usage function called) is appended to a trace.
\<close>

subsection \<open>Strings\<close>

text \<open>
  A Go string is a sequence of bytes, here a \<^typ>\<open>string\<close>; a rune is a code point, here a
  natural number. \<^verbatim>\<open>command\<close> passes the first byte of a token to \<^verbatim>\<open>strings.ToUpper\<close> and
  the remainder to \<^verbatim>\<open>strings.ToLower\<close>, so both functions are modelled on every byte
  string, as the Go library computes them:
  \<^item> on a string of ASCII bytes, the letters are mapped byte by byte;
  \<^item> on any other string, \<^verbatim>\<open>strings.Map\<close> decodes the string as UTF-8 (a byte that starts
    no valid encoding is the rune \<^verbatim>\<open>U+FFFD\<close> of width 1), maps every rune with
    \<^verbatim>\<open>unicode.ToUpper\<close> or \<^verbatim>\<open>unicode.ToLower\<close> and encodes the result.
  The case mapping of runes above \<^verbatim>\<open>U+007F\<close> is given by the tables of the package
  \<^verbatim>\<open>unicode\<close>. The tables are a parameter of the model: every property below holds for
  all tables.
\<close>

type_synonym rune = nat

definition RuneError :: rune where
  "RuneError = 0xFFFD"

record case_tables =
  UpperCase :: "rune \<Rightarrow> rune"
  LowerCase :: "rune \<Rightarrow> rune"

text \<open>\<^verbatim>\<open>unicode.ToUpper\<close> and \<^verbatim>\<open>unicode.ToLower\<close>: ASCII is mapped without the tables.\<close>

definition unicode_ToUpper :: "case_tables \<Rightarrow> rune \<Rightarrow> rune" where
  "unicode_ToUpper U r =
     (if r \<le> 0x7F then (if 97 \<le> r \<and> r \<le> 122 then r - 32 else r) else UpperCase U r)"

definition unicode_ToLower :: "case_tables \<Rightarrow> rune \<Rightarrow> rune" where
  "unicode_ToLower U r =
     (if r \<le> 0x7F then (if 65 \<le> r \<and> r \<le> 90 then r + 32 else r) else LowerCase U r)"

text \<open>
  \<^verbatim>\<open>utf8.DecodeRuneInString\<close>: the first rune of a string and its width in bytes. The
  second byte of an encoding has a range that depends on the first byte (no overlong
  encoding, no surrogate, nothing above \<^verbatim>\<open>U+10FFFF\<close>).
\<close>

definition continuation :: "nat \<Rightarrow> bool" where
  "continuation b \<longleftrightarrow> 0x80 \<le> b \<and> b \<le> 0xBF"

definition accept_lo :: "nat \<Rightarrow> nat" where
  "accept_lo b0 = (if b0 = 0xE0 then 0xA0 else if b0 = 0xF0 then 0x90 else 0x80)"

definition accept_hi :: "nat \<Rightarrow> nat" where
  "accept_hi b0 = (if b0 = 0xED then 0x9F else if b0 = 0xF4 then 0x8F else 0xBF)"

fun DecodeRuneInString :: "string \<Rightarrow> rune \<times> nat" where
  "DecodeRuneInString [] = (RuneError, 0)"
| "DecodeRuneInString (c # cs) =
     (let s0 = (of_char c :: nat); bs = map of_char cs in
      if s0 < 0x80 then (s0, 1)
      else if 0xC2 \<le> s0 \<and> s0 \<le> 0xDF then
        (case bs of
           s1 # _ \<Rightarrow>
             if accept_lo s0 \<le> s1 \<and> s1 \<le> accept_hi s0
             then ((s0 mod 32) * 64 + s1 mod 64, 2)
             else (RuneError, 1)
         | _ \<Rightarrow> (RuneError, 1))
      else if 0xE0 \<le> s0 \<and> s0 \<le> 0xEF then
        (case bs of
           s1 # s2 # _ \<Rightarrow>
             if accept_lo s0 \<le> s1 \<and> s1 \<le> accept_hi s0 \<and> continuation s2
             then ((s0 mod 16) * 4096 + (s1 mod 64) * 64 + s2 mod 64, 3)
             else (RuneError, 1)
         | _ \<Rightarrow> (RuneError, 1))
      else if 0xF0 \<le> s0 \<and> s0 \<le> 0xF4 then
        (case bs of
           s1 # s2 # s3 # _ \<Rightarrow>
             if accept_lo s0 \<le> s1 \<and> s1 \<le> accept_hi s0 \<and> continuation s2 \<and> continuation s3
             then ((s0 mod 8) * 262144 + (s1 mod 64) * 4096 + (s2 mod 64) * 64 + s3 mod 64, 4)
             else (RuneError, 1)
         | _ \<Rightarrow> (RuneError, 1))
      else (RuneError, 1))"

text \<open>The runes of \<^verbatim>\<open>for _, c := range s\<close>.\<close>

fun runes :: "string \<Rightarrow> rune list" where
  "runes [] = []"
| "runes (c # cs) =
     (case DecodeRuneInString (c # cs) of (r, width) \<Rightarrow> r # runes (drop (width - 1) cs))"

text \<open>
  \<^verbatim>\<open>utf8.EncodeRune\<close>, as \<^verbatim>\<open>WriteRune\<close> uses it: a surrogate or a rune above \<^verbatim>\<open>U+10FFFF\<close> is
  written as \<^verbatim>\<open>U+FFFD\<close>.
\<close>

definition EncodeRune :: "rune \<Rightarrow> string" where
  "EncodeRune r =
     (if r \<le> 0x7F then [char_of r]
      else if r \<le> 0x7FF then [char_of (0xC0 + r div 64), char_of (0x80 + r mod 64)]
      else if 0x10FFFF < r \<or> (0xD800 \<le> r \<and> r \<le> 0xDFFF) then [CHR 0xEF, CHR 0xBF, CHR 0xBD]
      else if r \<le> 0xFFFF then
        [char_of (0xE0 + r div 4096), char_of (0x80 + (r div 64) mod 64), char_of (0x80 + r mod 64)]
      else
        [char_of (0xF0 + r div 262144), char_of (0x80 + (r div 4096) mod 64),
         char_of (0x80 + (r div 64) mod 64), char_of (0x80 + r mod 64)])"

text \<open>
  \<^verbatim>\<open>strings.Map\<close> for a mapping that drops no rune: the result holds the encoding of the
  image of every rune. (A rune that the mapping leaves alone is copied, and the decoder
  accepts only the encoding that the encoder writes; an invalid byte is never copied.)
\<close>

definition strings_Map :: "(rune \<Rightarrow> rune) \<Rightarrow> string \<Rightarrow> string" where
  "strings_Map mapping s = concat (map (\<lambda>c. EncodeRune (mapping c)) (runes s))"

text \<open>The loop body of the ASCII path of \<^verbatim>\<open>strings.ToUpper\<close> and of \<^verbatim>\<open>strings.ToLower\<close>.\<close>

definition upper_byte :: "char \<Rightarrow> char" where
  "upper_byte c =
     (let n = (of_char c :: nat) in if 97 \<le> n \<and> n \<le> 122 then char_of (n - 32) else c)"

definition lower_byte :: "char \<Rightarrow> char" where
  "lower_byte c =
     (let n = (of_char c :: nat) in if 65 \<le> n \<and> n \<le> 90 then char_of (n + 32) else c)"

definition isASCII :: "string \<Rightarrow> bool" where
  "isASCII s = list_all (\<lambda>c. (of_char c :: nat) < 0x80) s"

definition ToUpper :: "case_tables \<Rightarrow> string \<Rightarrow> string" where
  "ToUpper U s = (if isASCII s then map upper_byte s else strings_Map (unicode_ToUpper U) s)"

definition ToLower :: "case_tables \<Rightarrow> string \<Rightarrow> string" where
  "ToLower U s = (if isASCII s then map lower_byte s else strings_Map (unicode_ToLower U) s)"

subsection \<open>Data\<close>

text \<open>
  An \<^verbatim>\<open>io.Writer\<close> is known by its identity. The trace lists what the dispatcher did.
\<close>

datatype writer = os_Stderr | Writer nat

datatype event =
    Initialize_called
  | Invoked string "string list"
  | Fprintf writer string
  | Cli_Usage_called
  | flag_Usage_called

text \<open>
  A handler is any Go value (\<^verbatim>\<open>interface{}\<close>): \<^verbatim>\<open>nil\<close>, the \<^verbatim>\<open>Cli\<close> itself (which \<^verbatim>\<open>New\<close>
  puts first), or an object of the caller. An object is known by its exported methods
  and by whether it implements \<^verbatim>\<open>Initializer\<close>. A method either has the type
  \<^verbatim>\<open>func(...string) error\<close> or some other type.
\<close>

type_synonym ('w, 'e) cmdfunc = "string list \<Rightarrow> 'w \<Rightarrow> 'e option \<times> 'w"

datatype ('w, 'e) handler_method = CmdFunc "('w, 'e) cmdfunc" | OtherFunc

record ('w, 'e) object =
  methods :: "string \<Rightarrow> ('w, 'e) handler_method option"
  Initialize :: "('w \<Rightarrow> 'e option \<times> 'w) option"

datatype ('w, 'e) Handler = NilHandler | Self | Object "('w, 'e) object"

record ('w, 'e) Cli =
  Stderr :: "writer option"
  handlers :: "('w, 'e) Handler list"
  Usage :: "('w \<Rightarrow> 'w) option"

record ('w, 'e) state =
  cli :: "('w, 'e) Cli"
  world :: 'w
  trace :: "event list"

text \<open>
  \<^verbatim>\<open>type initErr struct{ error }\<close> and the two kinds of error that \<^verbatim>\<open>command\<close> returns:
  one made by \<^verbatim>\<open>errors.New\<close>, or an \<^verbatim>\<open>initErr\<close>.
\<close>

datatype 'e initErr = initErr (error: 'e)

datatype 'e error_value = errorString string | initErr_value "'e initErr"

text \<open>
  A \<^verbatim>\<open>reflect.Value\<close> as \<^verbatim>\<open>MethodByName\<close> returns it, the function values that
  \<^verbatim>\<open>command\<close> returns, and how a call ends: it returns an \<^verbatim>\<open>error\<close> (\<open>None\<close> is
  \<^verbatim>\<open>nil\<close>), the process exits, or a type assertion panics.
\<close>

datatype ('w, 'e) Value = Invalid | Method_CmdHelp | Method "('w, 'e) handler_method"

datatype ('w, 'e) func = Cli_CmdHelp | Handler_func "('w, 'e) cmdfunc"

datatype ('w, 'e) resolution =
    Resolved string "('w, 'e) func"
  | Failed "'e error_value"
  | Panic

datatype 'e outcome = Returned "'e option" | Exited nat | Panicked

subsection \<open>Construction\<close>

definition New :: "('w, 'e) Handler list \<Rightarrow> ('w, 'e) Cli" where
  "New hs = \<lparr>Stderr = None, handlers = [Self] @ hs, Usage = None\<rparr>"

subsection \<open>The error method of \<^verbatim>\<open>initErr\<close>\<close>

text \<open>
  \<^verbatim>\<open>func (err initErr) Error() string { return err.Error() }\<close>: the method declared on
  \<^verbatim>\<open>initErr\<close> hides the promoted method of the embedded \<^verbatim>\<open>error\<close>, so the call in its
  body is a call of itself. Not returning is the value \<open>None\<close>.
\<close>

partial_function (option) Error_initErr :: "'e initErr \<Rightarrow> string option" where
  "Error_initErr err = Error_initErr err"

subsection \<open>Resolution\<close>

text \<open>
  The inner loop of \<^verbatim>\<open>command\<close>: every token is capitalised, and an empty token ends
  the resolution (\<open>None\<close>).
\<close>

fun camelArgs :: "case_tables \<Rightarrow> string list \<Rightarrow> string list option" where
  "camelArgs U [] = Some []"
| "camelArgs U (s # ss) =
     (if length s = 0 then None
      else (case camelArgs U ss of
              None \<Rightarrow> None
            | Some cs \<Rightarrow> Some ((ToUpper U (take 1 s) @ ToLower U (drop 1 s)) # cs)))"

fun MethodByName :: "('w, 'e) Handler \<Rightarrow> string \<Rightarrow> ('w, 'e) Value" where
  "MethodByName NilHandler n = Invalid"
| "MethodByName Self n = (if n = ''CmdHelp'' then Method_CmdHelp else Invalid)"
| "MethodByName (Object h) n = (case methods h n of None \<Rightarrow> Invalid | Some m \<Rightarrow> Method m)"

fun Initializer :: "('w, 'e) Handler \<Rightarrow> ('w \<Rightarrow> 'e option \<times> 'w) option" where
  "Initializer (Object h) = Initialize h"
| "Initializer _ = None"

fun assert_func :: "('w, 'e) Value \<Rightarrow> ('w, 'e) func option" where
  "assert_func Method_CmdHelp = Some Cli_CmdHelp"
| "assert_func (Method (CmdFunc f)) = Some (Handler_func f)"
| "assert_func _ = None"

fun command_loop ::
  "case_tables \<Rightarrow> ('w, 'e) Handler list \<Rightarrow> string list \<Rightarrow> ('w, 'e) state \<Rightarrow>
     ('w, 'e) resolution \<times> ('w, 'e) state"
where
  "command_loop U [] args st = (Failed (errorString ''command not found''), st)"
| "command_loop U (c # cs) args st =
     (if c = NilHandler then command_loop U cs args st
      else (case camelArgs U args of
              None \<Rightarrow> (Failed (errorString ''empty command''), st)
            | Some camel \<Rightarrow>
                (let methodName = ''Cmd'' @ concat camel;
                     method_value = MethodByName c methodName
                 in if method_value \<noteq> Invalid then
                      (case Initializer c of
                         Some init \<Rightarrow>
                           (case init (world st) of
                              (Some err, w) \<Rightarrow>
                                (Failed (initErr_value (initErr err)),
                                 st\<lparr>world := w, trace := trace st @ [Initialize_called]\<rparr>)
                            | (None, w) \<Rightarrow>
                                (case assert_func method_value of
                                   Some f \<Rightarrow> Resolved methodName f
                                 | None \<Rightarrow> Panic,
                                 st\<lparr>world := w, trace := trace st @ [Initialize_called]\<rparr>))
                       | None \<Rightarrow>
                           (case assert_func method_value of
                              Some f \<Rightarrow> Resolved methodName f
                            | None \<Rightarrow> Panic,
                            st))
                    else command_loop U cs args st)))"

definition command ::
  "case_tables \<Rightarrow> string list \<Rightarrow> ('w, 'e) state \<Rightarrow> ('w, 'e) resolution \<times> ('w, 'e) state"
where
  "command U args st = command_loop U (handlers (cli st)) args st"

text \<open>The name that \<^verbatim>\<open>command\<close> looks up for tokens none of which is empty.\<close>

definition methodName :: "case_tables \<Rightarrow> string list \<Rightarrow> string" where
  "methodName U args =
     ''Cmd'' @ concat (map (\<lambda>s. ToUpper U (take 1 s) @ ToLower U (drop 1 s)) args)"

subsection \<open>Dispatch\<close>

definition noSuchCommand_message :: "string \<Rightarrow> string" where
  "noSuchCommand_message cmd =
     ''docker: '' @ [CHR 0x27] @ cmd @ [CHR 0x27] @ '' is not a docker command.'' @ [CHR 0x0A] @
     ''See '' @ [CHR 0x27] @ ''docker --help'' @ [CHR 0x27] @ ''.'' @ [CHR 0x0A]"

definition noSuchCommand :: "string \<Rightarrow> ('w, 'e) state \<Rightarrow> ('w, 'e) state" where
  "noSuchCommand cmd st =
     (let st1 = (if Stderr (cli st) = None
                 then st\<lparr>cli := (cli st)\<lparr>Stderr := Some os_Stderr\<rparr>\<rparr>
                 else st)
      in (case Stderr (cli st1) of
            Some w \<Rightarrow> st1\<lparr>trace := trace st1 @ [Fprintf w (noSuchCommand_message cmd)]\<rparr>
          | None \<Rightarrow> st1))"

definition call :: "string \<Rightarrow> ('w, 'e) cmdfunc \<Rightarrow> string list \<Rightarrow> ('w, 'e) state \<Rightarrow> 'e outcome \<times> ('w, 'e) state" where
  "call name f args st =
     (case f args (world st) of
        (r, w) \<Rightarrow> (Returned r, st\<lparr>world := w, trace := trace st @ [Invoked name args]\<rparr>))"

definition print_usage :: "('w, 'e) state \<Rightarrow> ('w, 'e) state" where
  "print_usage st =
     (case Usage (cli st) of
        None \<Rightarrow> st\<lparr>trace := trace st @ [flag_Usage_called]\<rparr>
      | Some u \<Rightarrow> st\<lparr>world := u (world st), trace := trace st @ [Cli_Usage_called]\<rparr>)"

fun discard :: "'e outcome \<times> 's \<Rightarrow> 'e outcome \<times> 's" where
  "discard (Returned r, st) = (Returned None, st)"
| "discard (out, st) = (out, st)"

function CmdHelp :: "case_tables \<Rightarrow> string list \<Rightarrow> ('w, 'e) state \<Rightarrow> 'e outcome \<times> ('w, 'e) state" where
  "CmdHelp U args st =
     (case (if 1 < length args then
              (case command U (take 2 args) st of
                 (Resolved name Cli_CmdHelp, st1) \<Rightarrow> Inl (discard (CmdHelp U [''--help''] st1))
               | (Resolved name (Handler_func f), st1) \<Rightarrow> Inl (discard (call name f [''--help''] st1))
               | (Failed (initErr_value err), st1) \<Rightarrow> Inl (Returned (Some (error err)), st1)
               | (Failed (errorString msg), st1) \<Rightarrow> Inr st1
               | (Panic, st1) \<Rightarrow> Inl (Panicked, st1))
            else Inr st) of
        Inl result \<Rightarrow> result
      | Inr st2 \<Rightarrow>
          (case (if 0 < length args then
                   (case command U [args ! 0] st2 of
                      (Resolved name Cli_CmdHelp, st3) \<Rightarrow> Inl (discard (CmdHelp U [''--help''] st3))
                    | (Resolved name (Handler_func f), st3) \<Rightarrow> Inl (discard (call name f [''--help''] st3))
                    | (Failed (initErr_value err), st3) \<Rightarrow> Inl (Returned (Some (error err)), st3)
                    | (Failed (errorString msg), st3) \<Rightarrow> Inl (Exited 1, noSuchCommand (args ! 0) st3)
                    | (Panic, st3) \<Rightarrow> Inl (Panicked, st3))
                 else Inr st2) of
             Inl result \<Rightarrow> result
           | Inr st4 \<Rightarrow> (Returned None, print_usage st4)))"
  by pat_completeness auto


lemmas case_evals =
  ToUpper_def ToLower_def isASCII_def upper_byte_def lower_byte_def char_of_def bit_Suc_0_iff
  strings_Map_def unicode_ToUpper_def unicode_ToLower_def EncodeRune_def RuneError_def
  continuation_def accept_lo_def accept_hi_def

lemma assert_func_CmdHelp: "assert_func v = Some Cli_CmdHelp \<Longrightarrow> v = Method_CmdHelp"
  by (erule assert_func.elims) auto

lemma MethodByName_CmdHelp: "MethodByName c n = Method_CmdHelp \<Longrightarrow> n = ''CmdHelp''"
  by (cases c) (auto split: if_splits option.splits)

lemma command_loop_CmdHelp:
  "command_loop U hs args st = (Resolved name Cli_CmdHelp, st') \<Longrightarrow>
     \<exists>cs. camelArgs U args = Some cs \<and> ''Cmd'' @ concat cs = ''CmdHelp''"
proof (induction hs)
  case Nil
  then show ?case by simp
next
  case (Cons c cs)
  then show ?case
    by (auto simp: Let_def split: option.splits if_splits prod.splits
          dest!: assert_func_CmdHelp MethodByName_CmdHelp)
qed

lemma command_help_flag:
  "command U [''--help''] st \<noteq> (Resolved name Cli_CmdHelp, st')"
proof
  assume "command U [''--help''] st = (Resolved name Cli_CmdHelp, st')"
  then obtain cs where "camelArgs U [''--help''] = Some cs" "''Cmd'' @ concat cs = ''CmdHelp''"
    unfolding command_def by (blast dest: command_loop_CmdHelp)
  then show False by (auto simp: case_evals)
qed

text \<open>
  \<^verbatim>\<open>CmdHelp\<close> calls itself only with the one argument \<^verbatim>\<open>--help\<close>, and for that argument
  the name looked up is not \<^verbatim>\<open>CmdHelp\<close>: the recursion is at most one call deep.
\<close>

termination CmdHelp
  apply (relation "measure (\<lambda>(U, args, st). if args = [''--help''] then 0 else 1)")
    apply simp
   apply auto[1]
  apply (auto simp: command_help_flag command_help_flag[symmetric])
  done

declare CmdHelp.simps [simp del]

text \<open>A call of a function value that \<^verbatim>\<open>command\<close> returned.\<close>

fun invoke ::
  "case_tables \<Rightarrow> string \<Rightarrow> ('w, 'e) func \<Rightarrow> string list \<Rightarrow> ('w, 'e) state \<Rightarrow>
     'e outcome \<times> ('w, 'e) state"
where
  "invoke U name Cli_CmdHelp args st = CmdHelp U args st"
| "invoke U name (Handler_func f) args st = call name f args st"

text \<open>\<^verbatim>\<open>Run\<close>, with the two \<^verbatim>\<open>if\<close> blocks as in \<^verbatim>\<open>CmdHelp\<close>.\<close>

definition Run :: "case_tables \<Rightarrow> string list \<Rightarrow> ('w, 'e) state \<Rightarrow> 'e outcome \<times> ('w, 'e) state" where
  "Run U args st =
     (case (if 1 < length args then
              (case command U (take 2 args) st of
                 (Resolved name f, st1) \<Rightarrow> Inl (invoke U name f (drop 2 args) st1)
               | (Failed (initErr_value err), st1) \<Rightarrow> Inl (Returned (Some (error err)), st1)
               | (Failed (errorString msg), st1) \<Rightarrow> Inr st1
               | (Panic, st1) \<Rightarrow> Inl (Panicked, st1))
            else Inr st) of
        Inl result \<Rightarrow> result
      | Inr st2 \<Rightarrow>
          (case (if 0 < length args then
                   (case command U [args ! 0] st2 of
                      (Resolved name f, st3) \<Rightarrow> Inl (invoke U name f (drop 1 args) st3)
                    | (Failed (initErr_value err), st3) \<Rightarrow> Inl (Returned (Some (error err)), st3)
                    | (Failed (errorString msg), st3) \<Rightarrow> Inl (Exited 1, noSuchCommand (args ! 0) st3)
                    | (Panic, st3) \<Rightarrow> Inl (Panicked, st3))
                 else Inr st2) of
             Inl result \<Rightarrow> result
           | Inr st4 \<Rightarrow> CmdHelp U [] st4))"

subsection \<open>Subcommand flag sets\<close>

text \<open>
  \<^verbatim>\<open>Subcmd\<close> builds a flag set of the package \<^verbatim>\<open>mflag\<close>. Of the flag set, the model keeps
  the name, the error handling and the two closures that \<^verbatim>\<open>Subcmd\<close> stores in it. The
  closures read the flag set when they run: the number that \<^verbatim>\<open>FlagCountUndeprecated\<close>
  returns then and the text that \<^verbatim>\<open>PrintDefaults\<close> writes then are their arguments, and
  their result is the text written to \<^verbatim>\<open>flags.Out()\<close>.
\<close>

datatype ErrorHandling = ContinueOnError | ExitOnError | PanicOnError

record FlagSet =
  flagset_name :: string
  errorHandling :: ErrorHandling
  FlagSet_ShortUsage :: "nat \<Rightarrow> string"
  FlagSet_Usage :: "nat \<Rightarrow> string \<Rightarrow> string"

text \<open>The loop over the synopses, from index \<open>i\<close> on.\<close>

fun synopsis_loop :: "nat \<Rightarrow> string list \<Rightarrow> string \<Rightarrow> string \<Rightarrow> string" where
  "synopsis_loop i [] name options = ''''"
| "synopsis_loop i (synopsis # synopses) name options =
     (let lead = (if i = 0 then ''Usage:'' @ [CHR 0x09] else [CHR 0x09]);
          synopsis' = (if synopsis \<noteq> '''' then '' '' @ synopsis else synopsis)
      in [CHR 0x0A] @ lead @ ''docker '' @ name @ options @ synopsis')
     @ synopsis_loop (i + 1) synopses name options"

definition ShortUsage :: "string \<Rightarrow> string list \<Rightarrow> string \<Rightarrow> nat \<Rightarrow> string" where
  "ShortUsage name synopses description FlagCountUndeprecated =
     (let options = (if 0 < FlagCountUndeprecated then '' [OPTIONS]'' else '''');
          synopses' = (if length synopses = 0 then [''''] else synopses)
      in synopsis_loop 0 synopses' name options
         @ [CHR 0x0A, CHR 0x0A] @ description @ [CHR 0x0A])"

definition Subcmd :: "string \<Rightarrow> string list \<Rightarrow> string \<Rightarrow> bool \<Rightarrow> FlagSet" where
  "Subcmd name synopses description exitOnError =
     \<lparr>flagset_name = name,
      errorHandling = (if exitOnError then ExitOnError else ContinueOnError),
      FlagSet_ShortUsage = ShortUsage name synopses description,
      FlagSet_Usage = (\<lambda>FlagCountUndeprecated PrintDefaults.
         ShortUsage name synopses description FlagCountUndeprecated @ PrintDefaults)\<rparr>"

subsection \<open>Example handlers\<close>

text \<open>
  Concrete handlers and states, on which the properties below are evaluated. A command
  function of the examples appends its tag and its arguments to the state of the
  handlers, a list of calls.
\<close>

text \<open>
  An excerpt of the tables of the package \<^verbatim>\<open>unicode\<close>, for the examples: the pair
  \<^verbatim>\<open>U+00C9\<close> and \<^verbatim>\<open>U+00E9\<close> (E and e with acute accent). Every other rune that occurs in
  the examples (\<^verbatim>\<open>U+FFFD\<close>) has no case.
\<close>

definition example_tables :: case_tables where
  "example_tables =
     \<lparr>UpperCase = (\<lambda>r. if r = 0xE9 then 0xC9 else r),
      LowerCase = (\<lambda>r. if r = 0xC9 then 0xE9 else r)\<rparr>"

definition record_call :: "string \<Rightarrow> ((string \<times> string list) list, string) cmdfunc" where
  "record_call tag args w = (None, w @ [(tag, args)])"

definition example_handler :: "((string \<times> string list) list, string) object" where
  "example_handler =
     \<lparr>methods = (\<lambda>n. if n = ''CmdFoo'' then Some (CmdFunc (record_call ''foo''))
                     else if n = ''CmdBarBaz'' then Some (CmdFunc (record_call ''bar baz''))
                     else None),
      Initialize = None\<rparr>"

definition example_state :: "((string \<times> string list) list, string) state" where
  "example_state = \<lparr>cli = New [Object example_handler], world = [], trace = []\<rparr>"

definition bare_state :: "((string \<times> string list) list, string) state" where
  "bare_state = \<lparr>cli = New [], world = [], trace = []\<rparr>"

text \<open>
  A handler whose hook fails, alone and registered before the example handler; a handler
  that has the method \<^verbatim>\<open>CmdFoo\<close> of the example handler and the method \<^verbatim>\<open>CmdHelp\<close> of
  the \<^verbatim>\<open>Cli\<close>; and a handler with a one-word command and a two-word command that starts
  with the same word.
\<close>

definition failing_Initialize :: "(string \<times> string list) list \<Rightarrow> string option \<times> (string \<times> string list) list" where
  "failing_Initialize w = (Some ''cannot connect'', w)"

definition failing_handler :: "((string \<times> string list) list, string) object" where
  "failing_handler =
     \<lparr>methods = (\<lambda>n. if n = ''CmdFoo'' then Some (CmdFunc (record_call ''failing foo'')) else None),
      Initialize = Some failing_Initialize\<rparr>"

definition failing_state :: "((string \<times> string list) list, string) state" where
  "failing_state =
     \<lparr>cli = New [Object failing_handler, Object example_handler], world = [], trace = []\<rparr>"

definition lone_failing_state :: "((string \<times> string list) list, string) state" where
  "lone_failing_state = \<lparr>cli = New [Object failing_handler], world = [], trace = []\<rparr>"

definition shadowing_handler :: "((string \<times> string list) list, string) object" where
  "shadowing_handler =
     \<lparr>methods = (\<lambda>n. if n = ''CmdFoo'' then Some (CmdFunc (record_call ''shadowing foo'')) else
                     if n = ''CmdHelp'' then Some (CmdFunc (record_call ''shadowing help'')) else None),
      Initialize = None\<rparr>"

definition shadowing_state :: "((string \<times> string list) list, string) state" where
  "shadowing_state =
     \<lparr>cli = New [Object shadowing_handler, Object example_handler], world = [], trace = []\<rparr>"

definition nested_handler :: "((string \<times> string list) list, string) object" where
  "nested_handler =
     \<lparr>methods = (\<lambda>n. if n = ''CmdFoo'' then Some (CmdFunc (record_call ''foo''))
                     else if n = ''CmdFooBar'' then Some (CmdFunc (record_call ''foo bar''))
                     else None),
      Initialize = None\<rparr>"

definition nested_state :: "((string \<times> string list) list, string) state" where
  "nested_state = \<lparr>cli = New [Object nested_handler], world = [], trace = []\<rparr>"

text \<open>
  A handler for tokens outside ASCII. Its methods are named \<^verbatim>\<open>CmdF\<close> followed by e with
  acute accent (\<^verbatim>\<open>U+00E9\<close>, the bytes \<^verbatim>\<open>C3 A9\<close>) and \<^verbatim>\<open>Cmd\<close> followed by E with acute accent
  (\<^verbatim>\<open>U+00C9\<close>, the bytes \<^verbatim>\<open>C3 89\<close>).
\<close>

definition accented_handler :: "((string \<times> string list) list, string) object" where
  "accented_handler =
     \<lparr>methods = (\<lambda>n. if n = ''CmdF'' @ [CHR 0xC3, CHR 0xA9]
                       then Some (CmdFunc (record_call ''f e-acute''))
                     else if n = ''Cmd'' @ [CHR 0xC3, CHR 0x89]
                       then Some (CmdFunc (record_call ''E-acute''))
                     else None),
      Initialize = None\<rparr>"

definition accented_state :: "((string \<times> string list) list, string) state" where
  "accented_state = \<lparr>cli = New [Object accented_handler], world = [], trace = []\<rparr>"

subsection \<open>Notions used in the statements\<close>

text \<open>
  What a call may do to the \<^verbatim>\<open>Cli\<close>: nothing, or, on the way to the exit of the process,
  store \<^verbatim>\<open>os.Stderr\<close> in a \<^verbatim>\<open>Stderr\<close> field that is \<^verbatim>\<open>nil\<close>.
\<close>

definition cli_frame :: "'e outcome \<Rightarrow> ('w, 'e) state \<Rightarrow> ('w, 'e) state \<Rightarrow> bool" where
  "cli_frame out st st' \<longleftrightarrow>
     cli st' = cli st \<or>
     out = Exited 1 \<and> Stderr (cli st) = None \<and> cli st' = (cli st)\<lparr>Stderr := Some os_Stderr\<rparr>"

text \<open>
  The canonicalized name in the words of the specification: the marker word, then every
  token with its first character in upper case and the remainder in lower case.
  \<^verbatim>\<open>command\<close> takes the first byte instead (\<open>methodName\<close>); the two agree on tokens that
  start with an ASCII character.
\<close>

definition canonicalized_by_character :: "case_tables \<Rightarrow> string list \<Rightarrow> string" where
  "canonicalized_by_character U toks =
     ''Cmd'' @ concat (map (\<lambda>s. case DecodeRuneInString s of
                                  (r, width) \<Rightarrow> ToUpper U (take width s) @ ToLower U (drop width s))
                        toks)"

text \<open>
  A text split at its newlines, and the usage block of a usage text: the lines after the
  leading newline, up to the first empty line. One line of the block is the lead, the
  program name, the command name, the options marker and the synopsis.
\<close>

fun split_lines :: "string \<Rightarrow> string list" where
  "split_lines [] = [[]]"
| "split_lines (c # cs) =
     (if c = CHR 0x0A then [] # split_lines cs
      else (case split_lines cs of [] \<Rightarrow> [[c]] | l # ls \<Rightarrow> (c # l) # ls))"

definition usage_block :: "string \<Rightarrow> string list" where
  "usage_block out = takeWhile (\<lambda>l. l \<noteq> []) (drop 1 (split_lines out))"

definition usage_line :: "string \<Rightarrow> string \<Rightarrow> string \<Rightarrow> string \<Rightarrow> string" where
  "usage_line lead name options synopsis =
     lead @ ''docker '' @ name @ options @ (if synopsis = '''' then '''' else '' '' @ synopsis)"

section \<open>Facts about resolution\<close>

text \<open>
  The name that \<^verbatim>\<open>command\<close> looks up is never the name of the other exported method of
  \<^verbatim>\<open>*Cli\<close>.
\<close>

lemma methodName_not_Run: "camelArgs U args = Some cs \<Longrightarrow> ''Cmd'' @ concat cs \<noteq> ''Run''"
  by simp

lemma camelArgs_None_iff: "camelArgs U args = None \<longleftrightarrow> '''' \<in> set args"
  by (induction args) (auto split: option.splits)

lemma camelArgs_Some_methodName:
  "camelArgs U args = Some cs \<Longrightarrow> methodName U args = ''Cmd'' @ concat cs"
  by (induction args arbitrary: cs) (auto simp: methodName_def split: option.splits if_splits)

lemma command_loop_empty_token:
  "'''' \<in> set args \<Longrightarrow> \<exists>msg. command_loop U hs args st = (Failed (errorString msg), st)"
proof -
  assume "'''' \<in> set args"
  then have "camelArgs U args = None"
    by (simp add: camelArgs_None_iff)
  then show ?thesis
    by (induction hs) auto
qed

lemma command_loop_unmatched:
  assumes "\<forall>c\<in>set hs. MethodByName c (methodName U args) = Invalid"
  shows "\<exists>msg. command_loop U hs args st = (Failed (errorString msg), st)"
proof (cases "camelArgs U args")
  case None
  then show ?thesis by (simp add: command_loop_empty_token camelArgs_None_iff)
next
  case (Some cs)
  from assms show ?thesis
    by (induction hs) (simp_all add: Some camelArgs_Some_methodName[OF Some] Let_def)
qed

lemma command_loop_skip:
  assumes "\<forall>p\<in>set pre. MethodByName p (methodName U args) = Invalid"
    and "'''' \<notin> set args"
  shows "command_loop U (pre @ hs) args st = command_loop U hs args st"
proof -
  from assms(2) obtain cs where cs: "camelArgs U args = Some cs"
    using camelArgs_None_iff by (cases "camelArgs U args") auto
  from assms(1) show ?thesis
    by (induction pre) (simp_all add: cs camelArgs_Some_methodName[OF cs] Let_def)
qed

lemma command_loop_found:
  assumes "MethodByName c (methodName U args) \<noteq> Invalid"
    and "'''' \<notin> set args"
  shows "command_loop U (c # post) args st = command_loop U [c] args st"
proof -
  from assms(2) obtain cs where cs: "camelArgs U args = Some cs"
    using camelArgs_None_iff by (cases "camelArgs U args") auto
  from assms(1) have "c \<noteq> NilHandler" by auto
  with assms(1) show ?thesis
    by (simp add: cs camelArgs_Some_methodName[OF cs] Let_def)
qed

lemma command_loop_single:
  assumes "MethodByName c (methodName U args) \<noteq> Invalid"
    and "'''' \<notin> set args"
  shows "command_loop U [c] args st =
     (case Initializer c of
        None \<Rightarrow>
          (case assert_func (MethodByName c (methodName U args)) of
             Some f \<Rightarrow> Resolved (methodName U args) f
           | None \<Rightarrow> Panic, st)
      | Some init \<Rightarrow>
          (case init (world st) of
             (Some err, w) \<Rightarrow>
               (Failed (initErr_value (initErr err)),
                st\<lparr>world := w, trace := trace st @ [Initialize_called]\<rparr>)
           | (None, w) \<Rightarrow>
               (case assert_func (MethodByName c (methodName U args)) of
                  Some f \<Rightarrow> Resolved (methodName U args) f
                | None \<Rightarrow> Panic,
                st\<lparr>world := w, trace := trace st @ [Initialize_called]\<rparr>)))"
proof -
  from assms(2) obtain cs where cs: "camelArgs U args = Some cs"
    using camelArgs_None_iff by (cases "camelArgs U args") auto
  from assms(1) have "c \<noteq> NilHandler" by auto
  with assms(1) show ?thesis
    by (simp add: cs camelArgs_Some_methodName[OF cs] Let_def split: option.splits prod.splits)
qed

lemma command_first_match:
  assumes "handlers (cli st) = pre @ c # post"
    and "\<forall>p\<in>set pre. MethodByName p (methodName U args) = Invalid"
    and "MethodByName c (methodName U args) \<noteq> Invalid"
    and "'''' \<notin> set args"
  shows "command U args st = command_loop U [c] args st"
proof -
  have "command U args st = command_loop U (c # post) args st"
    unfolding command_def assms(1) using assms(2,4) by (rule command_loop_skip)
  also have "\<dots> = command_loop U [c] args st"
    using assms(3,4) by (rule command_loop_found)
  finally show ?thesis .
qed

lemma command_unmatched:
  assumes "\<forall>c\<in>set (handlers (cli st)). MethodByName c (methodName U args) = Invalid"
  shows "\<exists>msg. command U args st = (Failed (errorString msg), st)"
  unfolding command_def using assms by (rule command_loop_unmatched)

lemma command_empty_token:
  "'''' \<in> set args \<Longrightarrow> \<exists>msg. command U args st = (Failed (errorString msg), st)"
  unfolding command_def by (rule command_loop_empty_token)

lemma noSuchCommand_eq:
  "noSuchCommand cmd st =
     (let w = (case Stderr (cli st) of None \<Rightarrow> os_Stderr | Some w \<Rightarrow> w)
      in st\<lparr>cli := (cli st)\<lparr>Stderr := Some w\<rparr>,
            trace := trace st @ [Fprintf w (noSuchCommand_message cmd)]\<rparr>)"
  by (cases "Stderr (cli st)") (simp_all add: noSuchCommand_def)

lemma CmdHelp_no_arguments: "CmdHelp U [] st = (Returned None, print_usage st)"
  by (subst CmdHelp.simps) simp

lemma methodName_qux: "methodName U [''qux''] = ''CmdQux''"
  by (simp add: methodName_def case_evals)

lemma methodName_foo: "methodName U [''foo''] = ''CmdFoo''"
  by (simp add: methodName_def case_evals)

lemma methodName_foo_bar: "methodName U [''foo'', ''bar''] = ''CmdFooBar''"
  by (simp add: methodName_def case_evals)

lemma methodName_help: "methodName U [''help''] = ''CmdHelp''"
  by (simp add: methodName_def case_evals)

lemma methodName_foo_x: "methodName U [''foo'', ''x''] = ''CmdFooX''"
  by (simp add: methodName_def case_evals)

lemma methodName_bar_baz: "methodName U [''bar'', ''baz''] = ''CmdBarBaz''"
  by (simp add: methodName_def case_evals)

subsection \<open>Facts about the case mapping\<close>

text \<open>
  The lone first byte of a character of several bytes is no valid encoding, so
  \<^verbatim>\<open>strings.ToUpper\<close> writes the image of \<^verbatim>\<open>U+FFFD\<close> for it, whatever the tables; a character
  outside ASCII in the remainder of a token is mapped by the tables.
\<close>

lemma ToUpper_lead_byte: "ToUpper U [CHR 0xC3] = EncodeRune (UpperCase U 0xFFFD)"
  by (simp add: case_evals)

lemma ToLower_E_acute: "ToLower example_tables [CHR 0xC3, CHR 0x89] = [CHR 0xC3, CHR 0xA9]"
  by (simp add: case_evals example_tables_def)

lemma methodName_e_acute:
  "methodName example_tables [[CHR 0xC3, CHR 0xA9]] =
     ''Cmd'' @ [CHR 0xEF, CHR 0xBF, CHR 0xBD] @ [CHR 0xEF, CHR 0xBF, CHR 0xBD]"
  by (simp add: methodName_def case_evals example_tables_def)

lemma methodName_f_E_acute:
  "methodName example_tables [''f'' @ [CHR 0xC3, CHR 0x89]] = ''CmdF'' @ [CHR 0xC3, CHR 0xA9]"
  by (simp add: methodName_def case_evals example_tables_def)

lemma methodName_f_E_acute_x:
  "methodName example_tables [''f'' @ [CHR 0xC3, CHR 0x89], ''x''] = ''CmdF'' @ [CHR 0xC3, CHR 0xA9] @ ''X''"
  by (simp add: methodName_def case_evals example_tables_def)

lemma canonicalized_e_acute:
  "canonicalized_by_character example_tables [[CHR 0xC3, CHR 0xA9]] = ''Cmd'' @ [CHR 0xC3, CHR 0x89]"
  by (simp add: canonicalized_by_character_def case_evals example_tables_def)

lemma canonicalized_by_character_ASCII:
  assumes "\<forall>s\<in>set toks. s \<noteq> [] \<and> (of_char (hd s) :: nat) < 0x80"
  shows "canonicalized_by_character U toks = methodName U toks"
proof -
  have "(case DecodeRuneInString s of (r, width) \<Rightarrow> ToUpper U (take width s) @ ToLower U (drop width s))
      = ToUpper U (take 1 s) @ ToLower U (drop 1 s)" if "s \<in> set toks" for s
  proof -
    from that assms have "s \<noteq> []" and "(of_char (hd s) :: nat) < 0x80"
      by auto
    then obtain c cs where "s = c # cs" "(of_char c :: nat) < 0x80"
      by (cases s) auto
    then show ?thesis by (simp add: Let_def)
  qed
  then show ?thesis
    by (simp add: canonicalized_by_character_def methodName_def cong: map_cong)
qed

lemma methodName_mixed: "methodName U [''bAR'', ''BAz''] = ''CmdBarBaz''"
  by (simp add: methodName_def case_evals)

lemma methodName_FOO: "methodName U [''fOO''] = ''CmdFoo''"
  by (simp add: methodName_def case_evals)

lemma methodName_fOO_x: "methodName U [''fOO'', ''x''] = ''CmdFooX''"
  by (simp add: methodName_def case_evals)

lemma methodName_QUX: "methodName U [''QUX''] = ''CmdQux''"
  by (simp add: methodName_def case_evals)

lemma methodName_QUX_bar: "methodName U [''QUX'', ''bar''] = ''CmdQuxBar''"
  by (simp add: methodName_def case_evals)

lemma methodName_hELP: "methodName U [''hELP''] = ''CmdHelp''"
  by (simp add: methodName_def case_evals)

text \<open>
  Characters of three and of four bytes (the euro sign \<^verbatim>\<open>U+20AC\<close>, the bytes \<^verbatim>\<open>E2 82 AC\<close>,
  and \<^verbatim>\<open>U+1F600\<close>, the bytes \<^verbatim>\<open>F0 9F 98 80\<close>) are decoded and written back; a first byte
  of two that is followed by an ASCII byte is written as \<^verbatim>\<open>U+FFFD\<close>, and the ASCII byte
  is mapped.
\<close>

lemma ToLower_euro:
  "ToLower example_tables [CHR 0xE2, CHR 0x82, CHR 0xAC] = [CHR 0xE2, CHR 0x82, CHR 0xAC]"
  by (simp add: case_evals example_tables_def)

lemma ToLower_four_bytes:
  "ToLower example_tables [CHR 0xF0, CHR 0x9F, CHR 0x98, CHR 0x80] =
     [CHR 0xF0, CHR 0x9F, CHR 0x98, CHR 0x80]"
  by (simp add: case_evals example_tables_def)

lemma ToLower_invalid:
  "ToLower example_tables [CHR 0xC3, CHR ''A''] = [CHR 0xEF, CHR 0xBF, CHR 0xBD, CHR ''a'']"
  by (simp add: case_evals example_tables_def)

subsection \<open>Facts about \<^verbatim>\<open>Run\<close>\<close>

lemma Run_two_tokens_resolved:
  assumes "1 < length args"
    and "command U (take 2 args) st = (Resolved name f, st')"
  shows "Run U args st = invoke U name f (drop 2 args) st'"
  using assms by (simp add: Run_def)

lemma Run_two_tokens_initErr:
  assumes "1 < length args"
    and "command U (take 2 args) st = (Failed (initErr_value e), st')"
  shows "Run U args st = (Returned (Some (error e)), st')"
  using assms by (simp add: Run_def)

lemma Run_one_token:
  assumes "0 < length args"
    and "1 < length args \<longrightarrow> (\<exists>msg. command U (take 2 args) st = (Failed (errorString msg), st))"
    and "command U [args ! 0] st = (r, st')"
  shows "Run U args st =
     (case r of
        Resolved name f \<Rightarrow> invoke U name f (drop 1 args) st'
      | Failed e \<Rightarrow> (case e of initErr_value err \<Rightarrow> (Returned (Some (error err)), st')
                                | errorString msg \<Rightarrow> (Exited 1, noSuchCommand (args ! 0) st'))
      | Panic \<Rightarrow> (Panicked, st'))"
  using assms by (cases r) (auto simp: Run_def split: error_value.splits)

lemma two_token_attempt_fails:
  assumes "args ! 1 = '''' \<or>
      (\<forall>c\<in>set (handlers (cli st)). MethodByName c (methodName U (take 2 args)) = Invalid)"
    and "1 < length args"
  shows "\<exists>msg. command U (take 2 args) st = (Failed (errorString msg), st)"
proof (cases "args ! 1 = ''''")
  case True
  from assms(2) obtain a b rest where "args = a # b # rest"
    by (cases args; cases "tl args") auto
  with True have "'''' \<in> set (take 2 args)"
    by simp
  then show ?thesis by (rule command_empty_token)
next
  case False
  with assms(1) show ?thesis by (simp add: command_unmatched)
qed

lemma resolved_tokens_cases:
  assumes "1 < length args \<and> toks = take 2 args \<or>
           0 < length args \<and> toks = [args ! 0] \<and>
           (1 < length args \<longrightarrow> args ! 1 = '''' \<or>
              (\<forall>c\<in>set (handlers (cli st)). MethodByName c (methodName U (take 2 args)) = Invalid))"
  obtains (two) "1 < length args" "toks = take 2 args" "length toks = 2"
    | (one) "0 < length args" "toks = [args ! 0]" "length toks = 1"
        "1 < length args \<longrightarrow> (\<exists>msg. command U (take 2 args) st = (Failed (errorString msg), st))"
  using assms two_token_attempt_fails [of args st U] by fastforce

lemma CmdHelp_initErr_two_tokens:
  assumes "1 < length args"
    and "command U (take 2 args) st = (Failed (initErr_value e), st')"
  shows "CmdHelp U args st = (Returned (Some (error e)), st')"
  using assms by (subst CmdHelp.simps) simp

lemma CmdHelp_initErr_one_token:
  assumes "0 < length args"
    and "1 < length args \<longrightarrow> (\<exists>msg. command U (take 2 args) st = (Failed (errorString msg), st))"
    and "command U [args ! 0] st = (Failed (initErr_value e), st')"
  shows "CmdHelp U args st = (Returned (Some (error e)), st')"
  using assms by (subst CmdHelp.simps) auto

lemma command_loop_empty_command:
  assumes "'''' \<in> set toks" and "c \<noteq> NilHandler"
  shows "command_loop U (c # hs) toks st = (Failed (errorString ''empty command''), st)"
proof -
  from assms(1) have "camelArgs U toks = None"
    by (simp add: camelArgs_None_iff)
  with assms(2) show ?thesis
    by simp
qed

subsection \<open>Facts about the \<^verbatim>\<open>Cli\<close> across a call\<close>

lemma command_loop_cli: "command_loop U hs args st = (r, st') \<Longrightarrow> cli st' = cli st"
  by (induction hs) (auto simp: Let_def split: if_splits option.splits prod.splits)

lemma command_cli: "command U args st = (r, st') \<Longrightarrow> cli st' = cli st"
  unfolding command_def by (rule command_loop_cli)

lemma call_frame: "call name f args st = (out, st') \<Longrightarrow> cli st' = cli st \<and> (\<exists>r. out = Returned r)"
  by (auto simp: call_def split: prod.splits)

lemma noSuchCommand_frame: "cli_frame (Exited 1) st (noSuchCommand cmd st)"
  by (cases "Stderr (cli st)") (auto simp: cli_frame_def noSuchCommand_def)

lemma print_usage_cli: "cli (print_usage st) = cli st"
  by (simp add: print_usage_def split: option.splits)

lemma cli_frame_discard:
  "discard r = (out, st') \<Longrightarrow> cli_frame (fst r) st (snd r) \<Longrightarrow> cli_frame out st st'"
  by (cases r rule: discard.cases) (auto simp: cli_frame_def)

lemma cli_frame_after: "cli st1 = cli st \<Longrightarrow> cli_frame out st1 st' \<Longrightarrow> cli_frame out st st'"
  by (simp add: cli_frame_def)

lemma cli_frame_same: "cli st' = cli st \<Longrightarrow> cli_frame out st st'"
  by (simp add: cli_frame_def)

lemma help_attempt_frame:
  assumes c: "command U toks s = (r, s1)"
    and rec: "\<And>n out1 t. r = Resolved n Cli_CmdHelp \<Longrightarrow> CmdHelp U [''--help''] s1 = (out1, t)
                \<Longrightarrow> cli_frame out1 s1 t"
    and res: "(case (r, s1) of
                 (Resolved name Cli_CmdHelp, st1) \<Rightarrow> Inl (discard (CmdHelp U [''--help''] st1))
               | (Resolved name (Handler_func f), st1) \<Rightarrow> Inl (discard (call name f [''--help''] st1))
               | (Failed (initErr_value err), st1) \<Rightarrow> Inl (Returned (Some (error err)), st1)
               | (Failed (errorString msg), st1) \<Rightarrow> X st1
               | (Panic, st1) \<Rightarrow> Inl (Panicked, st1)) = Inl (out, st')"
    and X: "\<And>msg. r = Failed (errorString msg) \<Longrightarrow> X s1 = Inl (out, st') \<Longrightarrow> cli_frame out s1 st'"
  shows "cli_frame out s st'"
proof -
  have s1: "cli s1 = cli s" using c by (rule command_cli)
  have "cli_frame out s1 st'"
  proof (cases r)
    case (Resolved n f)
    show ?thesis
    proof (cases f)
      case Cli_CmdHelp
      obtain out1 t where h: "CmdHelp U [''--help''] s1 = (out1, t)" by fastforce
      with Resolved Cli_CmdHelp have "cli_frame out1 s1 t" by (simp add: rec)
      moreover from res Resolved Cli_CmdHelp h have "discard (out1, t) = (out, st')" by simp
      ultimately show ?thesis by (auto intro: cli_frame_discard)
    next
      case (Handler_func g)
      obtain out1 t where h: "call n g [''--help''] s1 = (out1, t)" by fastforce
      then have "cli_frame out1 s1 t" by (auto dest: call_frame intro: cli_frame_same)
      moreover from res Resolved Handler_func h have "discard (out1, t) = (out, st')" by simp
      ultimately show ?thesis by (auto intro: cli_frame_discard)
    qed
  next
    case (Failed e)
    with res X show ?thesis
      by (cases e) (auto intro: cli_frame_same)
  next
    case Panic
    with res show ?thesis by (auto intro: cli_frame_same)
  qed
  with s1 show ?thesis by (rule cli_frame_after)
qed

lemma CmdHelp_frame:
  fixes st :: "('w, 'e) state"
  shows "CmdHelp U args st = (out, st') \<Longrightarrow> cli_frame out st st'"
proof (induction U args st arbitrary: out st' rule: CmdHelp.induct)
  case (1 U args st)
  let ?attempt = "\<lambda>X p. case p of
       (Resolved name Cli_CmdHelp, st1) \<Rightarrow> Inl (discard (CmdHelp U [''--help''] st1))
     | (Resolved name (Handler_func f), st1) \<Rightarrow> Inl (discard (call name f [''--help''] st1))
     | (Failed (initErr_value err), st1) \<Rightarrow> Inl (Returned (Some (error err)), st1)
     | (Failed (errorString msg), st1) \<Rightarrow> X st1
     | (Panic, st1) \<Rightarrow> Inl (Panicked, st1)"
  let ?B1 = "if 1 < length args then ?attempt Inr (command U (take 2 args) st) else Inr st"
  let ?B2 = "\<lambda>st2. if 0 < length args
       then ?attempt (\<lambda>st3. Inl (Exited 1, noSuchCommand (args ! 0) st3)) (command U [args ! 0] st2)
       else Inr st2"
  have unfold: "CmdHelp U args st =
      (case ?B1 of Inl result \<Rightarrow> result
       | Inr st2 \<Rightarrow> (case ?B2 st2 of Inl result \<Rightarrow> result
                       | Inr st4 \<Rightarrow> (Returned None, print_usage st4)))"
    by (subst CmdHelp.simps) (rule refl)
  show ?case
  proof (cases ?B1)
    case (Inl p)
    with unfold "1.prems" have p: "p = (out, st')" by simp
    from Inl have len: "1 < length args" by (auto split: if_splits)
    obtain r s1 where c: "command U (take 2 args) st = (r, s1)" by fastforce
    show ?thesis
    proof (rule help_attempt_frame [OF c, where X = Inr])
      fix n out1 t
      assume "r = Resolved n Cli_CmdHelp" "CmdHelp U [''--help''] s1 = (out1, t)"
      with len c show "cli_frame out1 s1 t"
        using "1.IH"(1) by metis
    next
      from Inl len c p show "?attempt Inr (r, s1) = Inl (out, st')" by simp
    qed simp
  next
    case (Inr sA)
    have sA: "cli sA = cli st"
    proof (cases "1 < length args")
      case True
      obtain r s1 where c: "command U (take 2 args) st = (r, s1)" by fastforce
      with Inr True have "sA = s1"
        by (auto split: resolution.splits func.splits error_value.splits)
      with c show ?thesis by (auto dest: command_cli)
    next
      case False
      with Inr show ?thesis by simp
    qed
    from Inr unfold "1.prems" have eq: "(case ?B2 sA of Inl result \<Rightarrow> result
        | Inr st4 \<Rightarrow> (Returned None, print_usage st4)) = (out, st')"
      by simp
    have "cli_frame out sA st'"
    proof (cases "?B2 sA")
      case (Inl p)
      with eq have p: "p = (out, st')" by simp
      from Inl have len: "0 < length args" by (auto split: if_splits)
      obtain r s1 where c: "command U [args ! 0] sA = (r, s1)" by fastforce
      show ?thesis
      proof (rule help_attempt_frame
          [OF c, where X = "\<lambda>st3. Inl (Exited 1, noSuchCommand (args ! 0) st3)"])
        fix n out1 t
        assume "r = Resolved n Cli_CmdHelp" "CmdHelp U [''--help''] s1 = (out1, t)"
        with len c Inr show "cli_frame out1 s1 t"
          using "1.IH"(2) [of sA "Resolved n Cli_CmdHelp" s1 n Cli_CmdHelp out1 t] by simp
      next
        from Inl len c p
        show "?attempt (\<lambda>st3. Inl (Exited 1, noSuchCommand (args ! 0) st3)) (r, s1) = Inl (out, st')"
          by (simp split: resolution.splits func.splits error_value.splits)
      next
        fix msg
        assume "Inl (Exited 1, noSuchCommand (args ! 0) s1) = (Inl (out, st') :: ('e outcome \<times> ('w, 'e) state) + ('w, 'e) state)"
        then show "cli_frame out s1 st'"
          using noSuchCommand_frame [of s1 "args ! 0"] by simp
      qed
    next
      case (Inr s4)
      then have "s4 = sA"
        by (auto split: if_splits prod.splits resolution.splits func.splits error_value.splits)
      with Inr eq show ?thesis
        by (auto simp: print_usage_cli intro: cli_frame_same)
    qed
    with sA show ?thesis by (rule cli_frame_after)
  qed
qed

lemma invoke_frame: "invoke U name f args st = (out, st') \<Longrightarrow> cli_frame out st st'"
  by (cases f) (auto dest: CmdHelp_frame call_frame intro: cli_frame_same)

lemma Run_frame:
  assumes "Run U args st = (out, st')"
  shows "cli_frame out st st'"
proof -
  obtain r2 s2 where c2: "command U (take 2 args) st = (r2, s2)" by fastforce
  then have s2: "cli s2 = cli st" by (rule command_cli)
  have tail: "cli_frame out s st'"
    if eq: "(case (if 0 < length args then
                   (case command U [args ! 0] s of
                      (Resolved name f, st3) \<Rightarrow> Inl (invoke U name f (drop 1 args) st3)
                    | (Failed (initErr_value err), st3) \<Rightarrow> Inl (Returned (Some (error err)), st3)
                    | (Failed (errorString msg), st3) \<Rightarrow> Inl (Exited 1, noSuchCommand (args ! 0) st3)
                    | (Panic, st3) \<Rightarrow> Inl (Panicked, st3))
                 else Inr s) of
             Inl result \<Rightarrow> result
           | Inr st4 \<Rightarrow> CmdHelp U [] st4) = (out, st')" for s
  proof -
    obtain r1 s1 where c1: "command U [args ! 0] s = (r1, s1)" by fastforce
    then have s1: "cli s1 = cli s" by (rule command_cli)
    show ?thesis
    proof (cases "0 < length args")
      case False
      with eq show ?thesis by (auto dest: CmdHelp_frame)
    next
      case True
      have "cli_frame out s1 st'"
      proof (cases r1)
        case (Resolved n f)
        with eq True c1 show ?thesis by (auto dest: invoke_frame)
      next
        case (Failed e)
        with eq True c1 noSuchCommand_frame [of s1 "args ! 0"] show ?thesis
          by (cases e) (auto intro: cli_frame_same)
      next
        case Panic
        with eq True c1 show ?thesis by (auto intro: cli_frame_same)
      qed
      with s1 show ?thesis by (rule cli_frame_after)
    qed
  qed
  show ?thesis
  proof (cases "1 < length args")
    case False
    with assms show ?thesis by (auto simp: Run_def intro: tail)
  next
    case True
    have "cli_frame out s2 st'"
    proof (cases r2)
      case (Resolved n f)
      with assms True c2 show ?thesis by (auto simp: Run_def dest: invoke_frame)
    next
      case (Failed e)
      show ?thesis
      proof (cases e)
        case (errorString msg)
        with assms True c2 Failed show ?thesis by (auto simp: Run_def intro: tail)
      next
        case (initErr_value err)
        with assms True c2 Failed show ?thesis by (auto simp: Run_def intro: cli_frame_same)
      qed
    next
      case Panic
      with assms True c2 show ?thesis by (auto simp: Run_def intro: cli_frame_same)
    qed
    with s2 show ?thesis by (rule cli_frame_after)
  qed
qed

subsection \<open>Facts about the usage text\<close>

lemma synopsis_loop_Suc:
  "synopsis_loop (Suc i) synopses name options =
     concat (map (\<lambda>s. [CHR 0x0A] @ usage_line [CHR 0x09] name options s) synopses)"
  by (induction synopses arbitrary: i) (simp_all add: usage_line_def)

lemma synopsis_loop_0:
  "synopsis_loop 0 (s # synopses) name options =
     [CHR 0x0A] @ usage_line (''Usage:'' @ [CHR 0x09]) name options s @
     concat (map (\<lambda>s. [CHR 0x0A] @ usage_line [CHR 0x09] name options s) synopses)"
  using synopsis_loop_Suc [of 0] by (simp add: usage_line_def)

lemma split_lines_line:
  "CHR 0x0A \<notin> set l \<Longrightarrow> split_lines (l @ CHR 0x0A # rest) = l # split_lines rest"
  by (induction l) auto

lemma synopsis_loop_starts:
  "\<exists>z. synopsis_loop i synopses name options @ CHR 0x0A # CHR 0x0A # rest = CHR 0x0A # z"
  by (cases synopses) auto

lemma usage_block_synopsis_loop:
  assumes "CHR 0x0A \<notin> set name" "CHR 0x0A \<notin> set options" "\<forall>s\<in>set synopses. CHR 0x0A \<notin> set s"
  shows "length (usage_block (synopsis_loop i synopses name options @ CHR 0x0A # CHR 0x0A # rest))
           = length synopses"
  using assms(3)
proof (induction synopses arbitrary: i)
  case Nil
  then show ?case by (simp add: usage_block_def)
next
  case (Cons s ss)
  let ?l = "(if i = 0 then ''Usage:'' @ [CHR 0x09] else [CHR 0x09]) @ ''docker '' @ name @ options @
      (if s \<noteq> '''' then '' '' @ s else s)"
  obtain z where z: "synopsis_loop (i + 1) ss name options @ CHR 0x0A # CHR 0x0A # rest = CHR 0x0A # z"
    using synopsis_loop_starts by blast
  have nl: "CHR 0x0A \<notin> set ?l"
    using assms(1,2) Cons.prems by auto
  have ne: "?l \<noteq> []" by simp
  have "usage_block (synopsis_loop i (s # ss) name options @ CHR 0x0A # CHR 0x0A # rest)
      = takeWhile (\<lambda>l. l \<noteq> []) (split_lines (?l @ CHR 0x0A # z))"
    by (simp add: usage_block_def Let_def z [simplified])
  also have "\<dots> = ?l # takeWhile (\<lambda>l. l \<noteq> []) (split_lines z)"
    using ne by (simp only: split_lines_line [OF nl] takeWhile.simps) simp
  also have "takeWhile (\<lambda>l. l \<noteq> []) (split_lines z)
      = usage_block (synopsis_loop (i + 1) ss name options @ CHR 0x0A # CHR 0x0A # rest)"
    by (simp only: z usage_block_def) simp
  finally show ?case
    using Cons.IH [of "i + 1"] Cons.prems by simp
qed

section \<open>Properties\<close>

subsection \<open>A resolved command is called with the remaining arguments\<close>

text \<open>
  Claim C1, amended. Let \<open>toks\<close> be the one or two tokens that \<^verbatim>\<open>Run\<close> takes as the
  command: the first two arguments, or the first argument when there is no second one,
  when the second one is empty, or when no handler has a method of the two-token name of
  the first two. Let no token of \<open>toks\<close> be empty. The name of \<open>toks\<close> is \<^verbatim>\<open>Cmd\<close>, then each
  token with its first byte passed through \<^verbatim>\<open>strings.ToUpper\<close> and its remainder through
  \<^verbatim>\<open>strings.ToLower\<close>; for tokens that start with an ASCII character this is the name of
  the specification, with the first character in upper case and the remainder in lower
  case (\<open>canonicalized_by_character_ASCII\<close>). Let \<open>c\<close> be the first registered handler that
  has a method of that name, let that method be a function \<open>f\<close> of the type
  \<^verbatim>\<open>func(...string) error\<close> (a command function of a handler object, or the help action of
  the \<^verbatim>\<open>Cli\<close>), and let \<open>c\<close> have no \<^verbatim>\<open>Initialize\<close> hook or one that returns \<^verbatim>\<open>nil\<close>. Then
  \<^verbatim>\<open>Run\<close> calls \<open>f\<close> with exactly the arguments after \<open>toks\<close>, after the hook, and what the
  call of \<open>f\<close> does and returns is what \<^verbatim>\<open>Run\<close> does and returns.
\<close>

theorem Run_invokes_resolved_action:
  assumes "1 < length args \<and> toks = take 2 args \<or>
           0 < length args \<and> toks = [args ! 0] \<and>
           (1 < length args \<longrightarrow> args ! 1 = '''' \<or>
              (\<forall>c\<in>set (handlers (cli st)). MethodByName c (methodName U (take 2 args)) = Invalid))"
    and "'''' \<notin> set toks"
    and "handlers (cli st) = pre @ c # post"
    and "\<forall>p\<in>set pre. MethodByName p (methodName U toks) = Invalid"
    and "assert_func (MethodByName c (methodName U toks)) = Some f"
    and "Initializer c = None \<and> st' = st \<or>
         (\<exists>init w. Initializer c = Some init \<and> init (world st) = (None, w) \<and>
            st' = st\<lparr>world := w, trace := trace st @ [Initialize_called]\<rparr>)"
  shows "Run U args st = invoke U (methodName U toks) f (drop (length toks) args) st'"
proof -
  have valid: "MethodByName c (methodName U toks) \<noteq> Invalid"
    using assms(5) by auto
  have "command U toks st = command_loop U [c] toks st"
    using assms(3,4) valid assms(2) by (rule command_first_match)
  also have "\<dots> = (Resolved (methodName U toks) f, st')"
    using assms(5,6) by (subst command_loop_single [OF valid assms(2)]) auto
  finally have res: "command U toks st = (Resolved (methodName U toks) f, st')" .
  from assms(1) show ?thesis
  proof (cases rule: resolved_tokens_cases)
    case two
    with res have "command U (take 2 args) st = (Resolved (methodName U toks) f, st')"
      by simp
    with two(1) have "Run U args st = invoke U (methodName U toks) f (drop 2 args) st'"
      by (rule Run_two_tokens_resolved)
    with two show ?thesis
      by simp
  next
    case one
    with res show ?thesis
      by (simp add: Run_one_token [where r = "Resolved (methodName U toks) f" and st' = st'])
  qed
qed

theorem Run_invokes_resolved_action_witness:
  "Run example_tables [''bAR'', ''BAz'', ''x''] example_state =
     (Returned None,
      example_state\<lparr>world := [(''bar baz'', [''x''])], trace := [Invoked ''CmdBarBaz'' [''x'']]\<rparr>) \<and>
   Run example_tables [''f'' @ [CHR 0xC3, CHR 0x89], ''x''] accented_state =
     (Returned None,
      accented_state\<lparr>world := [(''f e-acute'', [''x''])],
                     trace := [Invoked (''CmdF'' @ [CHR 0xC3, CHR 0xA9]) [''x'']]\<rparr>)"
proof -
  have h1: "1 < length [''bAR'', ''BAz'', ''x''] \<and> [''bAR'', ''BAz''] = take 2 [''bAR'', ''BAz'', ''x''] \<or>
      0 < length [''bAR'', ''BAz'', ''x''] \<and> [''bAR'', ''BAz''] = [[''bAR'', ''BAz'', ''x''] ! 0] \<and>
      (1 < length [''bAR'', ''BAz'', ''x''] \<longrightarrow> [''bAR'', ''BAz'', ''x''] ! 1 = '''' \<or>
         (\<forall>c\<in>set (handlers (cli example_state)).
            MethodByName c (methodName example_tables (take 2 [''bAR'', ''BAz'', ''x''])) = Invalid))"
    by simp
  have h2: "'''' \<notin> set [''bAR'', ''BAz'']" by simp
  have h3: "handlers (cli example_state) = [Self] @ Object example_handler # []"
    by (simp add: example_state_def New_def)
  have h4: "\<forall>p\<in>set [Self]. MethodByName p (methodName example_tables [''bAR'', ''BAz'']) = Invalid"
    by (simp add: methodName_mixed)
  have h5: "assert_func (MethodByName (Object example_handler) (methodName example_tables [''bAR'', ''BAz''])) =
      Some (Handler_func (record_call ''bar baz''))"
    by (simp add: methodName_mixed example_handler_def)
  have h6: "Initializer (Object example_handler) = None \<and> example_state = example_state \<or>
      (\<exists>init w. Initializer (Object example_handler) = Some init \<and>
         init (world example_state) = (None, w) \<and>
         example_state = example_state\<lparr>world := w, trace := trace example_state @ [Initialize_called]\<rparr>)"
    by (simp add: example_handler_def)
  have mixed: "Run example_tables [''bAR'', ''BAz'', ''x''] example_state =
     (Returned None,
      example_state\<lparr>world := [(''bar baz'', [''x''])], trace := [Invoked ''CmdBarBaz'' [''x'']]\<rparr>)"
    using Run_invokes_resolved_action [OF h1 h2 h3 h4 h5 h6]
    by (simp add: methodName_mixed call_def record_call_def example_state_def)
  have g1: "1 < length [''f'' @ [CHR 0xC3, CHR 0x89], ''x''] \<and>
        [''f'' @ [CHR 0xC3, CHR 0x89]] = take 2 [''f'' @ [CHR 0xC3, CHR 0x89], ''x''] \<or>
      0 < length [''f'' @ [CHR 0xC3, CHR 0x89], ''x''] \<and>
        [''f'' @ [CHR 0xC3, CHR 0x89]] = [[''f'' @ [CHR 0xC3, CHR 0x89], ''x''] ! 0] \<and>
      (1 < length [''f'' @ [CHR 0xC3, CHR 0x89], ''x''] \<longrightarrow>
         [''f'' @ [CHR 0xC3, CHR 0x89], ''x''] ! 1 = '''' \<or>
         (\<forall>c\<in>set (handlers (cli accented_state)).
            MethodByName c (methodName example_tables (take 2 [''f'' @ [CHR 0xC3, CHR 0x89], ''x''])) =
              Invalid))"
    using methodName_f_E_acute_x by (simp add: accented_state_def New_def accented_handler_def)
  have g2: "'''' \<notin> set [''f'' @ [CHR 0xC3, CHR 0x89]]" by simp
  have g3: "handlers (cli accented_state) = [Self] @ Object accented_handler # []"
    by (simp add: accented_state_def New_def)
  have g4: "\<forall>p\<in>set [Self].
      MethodByName p (methodName example_tables [''f'' @ [CHR 0xC3, CHR 0x89]]) = Invalid"
    using methodName_f_E_acute by simp
  have g5: "assert_func (MethodByName (Object accented_handler)
        (methodName example_tables [''f'' @ [CHR 0xC3, CHR 0x89]])) =
      Some (Handler_func (record_call ''f e-acute''))"
    using methodName_f_E_acute by (simp add: accented_handler_def)
  have g6: "Initializer (Object accented_handler) = None \<and> accented_state = accented_state \<or>
      (\<exists>init w. Initializer (Object accented_handler) = Some init \<and>
         init (world accented_state) = (None, w) \<and>
         accented_state = accented_state\<lparr>world := w, trace := trace accented_state @ [Initialize_called]\<rparr>)"
    by (simp add: accented_handler_def)
  have accented: "Run example_tables [''f'' @ [CHR 0xC3, CHR 0x89], ''x''] accented_state =
     (Returned None,
      accented_state\<lparr>world := [(''f e-acute'', [''x''])],
                     trace := [Invoked (''CmdF'' @ [CHR 0xC3, CHR 0xA9]) [''x'']]\<rparr>)"
    using Run_invokes_resolved_action [OF g1 g2 g3 g4 g5 g6] methodName_f_E_acute
    by (simp add: call_def record_call_def accented_state_def)
  from mixed accented show ?thesis ..
qed

text \<open>
  The claim as the specification states it fails in three ways. The one-token sequence
  \<^verbatim>\<open>foo\<close> has the name of a command function of a registered handler, and \<^verbatim>\<open>Run\<close> does
  not call it, because the hook of the handler fails. With the arguments \<^verbatim>\<open>foo bar\<close> and
  a handler that has both \<^verbatim>\<open>CmdFoo\<close> and \<^verbatim>\<open>CmdFooBar\<close>, the one-token sequence \<^verbatim>\<open>foo\<close> has
  the name of \<^verbatim>\<open>CmdFoo\<close>, and \<^verbatim>\<open>Run\<close> calls \<^verbatim>\<open>CmdFooBar\<close> with no arguments and not
  \<^verbatim>\<open>CmdFoo\<close> with \<^verbatim>\<open>bar\<close>. And the token that is the one character e with acute accent
  (the bytes \<^verbatim>\<open>C3 A9\<close>) has, with its first character in upper case, the name \<^verbatim>\<open>Cmd\<close> with
  E with acute accent (the bytes \<^verbatim>\<open>C3 89\<close>), a command function of the registered handler;
  \<^verbatim>\<open>Run\<close> passes the first byte alone to \<^verbatim>\<open>strings.ToUpper\<close>, finds no method of the name
  it builds and exits with status 1, with no command function called.
\<close>

theorem Run_matched_action_counterexample:
  "methods failing_handler (methodName example_tables [''foo'']) = Some (CmdFunc (record_call ''failing foo'')) \<and>
   handlers (cli lone_failing_state) = [Self, Object failing_handler] \<and>
   fst (Run example_tables [''foo'', ''x''] lone_failing_state) = Returned (Some ''cannot connect'') \<and>
   world (snd (Run example_tables [''foo'', ''x''] lone_failing_state)) = [] \<and>
   trace (snd (Run example_tables [''foo'', ''x''] lone_failing_state)) = [Initialize_called] \<and>
   methods nested_handler (methodName example_tables [''foo'']) = Some (CmdFunc (record_call ''foo'')) \<and>
   handlers (cli nested_state) = [Self, Object nested_handler] \<and>
   fst (Run example_tables [''foo'', ''bar''] nested_state) = Returned None \<and>
   world (snd (Run example_tables [''foo'', ''bar''] nested_state)) = [(''foo bar'', [])] \<and>
   trace (snd (Run example_tables [''foo'', ''bar''] nested_state)) = [Invoked ''CmdFooBar'' []] \<and>
   canonicalized_by_character example_tables [[CHR 0xC3, CHR 0xA9]] = ''Cmd'' @ [CHR 0xC3, CHR 0x89] \<and>
   methods accented_handler (''Cmd'' @ [CHR 0xC3, CHR 0x89]) = Some (CmdFunc (record_call ''E-acute'')) \<and>
   handlers (cli accented_state) = [Self, Object accented_handler] \<and>
   fst (Run example_tables [[CHR 0xC3, CHR 0xA9]] accented_state) = Exited 1 \<and>
   world (snd (Run example_tables [[CHR 0xC3, CHR 0xA9]] accented_state)) = [] \<and>
   trace (snd (Run example_tables [[CHR 0xC3, CHR 0xA9]] accented_state)) =
     [Fprintf os_Stderr
        (''docker: '' @ [CHR 0x27] @ [CHR 0xC3, CHR 0xA9] @ [CHR 0x27] @ '' is not a docker command.'' @
         [CHR 0x0A] @ ''See '' @ [CHR 0x27] @ ''docker --help'' @ [CHR 0x27] @ ''.'' @ [CHR 0x0A])]"
proof -
  have two: "command example_tables [''foo'', ''x''] lone_failing_state =
      (Failed (errorString ''command not found''), lone_failing_state)"
    by (simp add: lone_failing_state_def New_def command_def failing_handler_def case_evals)
  have one: "command example_tables [''foo''] lone_failing_state =
      (Failed (initErr_value (initErr ''cannot connect'')),
       lone_failing_state\<lparr>trace := [Initialize_called]\<rparr>)"
    by (simp add: lone_failing_state_def New_def command_def failing_handler_def
        failing_Initialize_def case_evals)
  have failing: "Run example_tables [''foo'', ''x''] lone_failing_state =
      (Returned (Some ''cannot connect''), lone_failing_state\<lparr>trace := [Initialize_called]\<rparr>)"
    by (simp add: Run_def two one)
  have both: "command example_tables [''foo'', ''bar''] nested_state =
      (Resolved ''CmdFooBar'' (Handler_func (record_call ''foo bar'')), nested_state)"
    by (simp add: nested_state_def New_def command_def nested_handler_def case_evals Let_def)
  have w: "world nested_state = []" and t: "trace nested_state = []"
    by (simp_all add: nested_state_def)
  have nested: "Run example_tables [''foo'', ''bar''] nested_state =
      (Returned None,
       nested_state\<lparr>world := [(''foo bar'', [])], trace := [Invoked ''CmdFooBar'' []]\<rparr>)"
    by (simp add: Run_def both call_def record_call_def w t)
  have hs: "handlers (cli lone_failing_state) = [Self, Object failing_handler]"
      "handlers (cli nested_state) = [Self, Object nested_handler]"
      "handlers (cli accented_state) = [Self, Object accented_handler]"
    by (simp_all add: lone_failing_state_def nested_state_def accented_state_def New_def)
  have ms: "methods failing_handler (methodName example_tables [''foo'']) = Some (CmdFunc (record_call ''failing foo''))"
      "methods nested_handler (methodName example_tables [''foo'']) = Some (CmdFunc (record_call ''foo''))"
      "methods accented_handler (''Cmd'' @ [CHR 0xC3, CHR 0x89]) = Some (CmdFunc (record_call ''E-acute''))"
    by (simp_all add: methodName_foo failing_handler_def nested_handler_def accented_handler_def)
  have w': "world lone_failing_state = []"
    by (simp add: lone_failing_state_def)
  have "\<forall>c\<in>set (handlers (cli accented_state)).
      MethodByName c (methodName example_tables [[CHR 0xC3, CHR 0xA9]]) = Invalid"
    using methodName_e_acute by (simp add: hs accented_handler_def)
  then have "\<exists>msg. command example_tables [[CHR 0xC3, CHR 0xA9]] accented_state =
      (Failed (errorString msg), accented_state)"
    by (rule command_unmatched)
  then have accented: "Run example_tables [[CHR 0xC3, CHR 0xA9]] accented_state =
      (Exited 1, noSuchCommand [CHR 0xC3, CHR 0xA9] accented_state)"
    by (auto simp: Run_def)
  have shown: "world (noSuchCommand [CHR 0xC3, CHR 0xA9] accented_state) = []"
      "trace (noSuchCommand [CHR 0xC3, CHR 0xA9] accented_state) =
         [Fprintf os_Stderr
            (''docker: '' @ [CHR 0x27] @ [CHR 0xC3, CHR 0xA9] @ [CHR 0x27] @ '' is not a docker command.'' @
             [CHR 0x0A] @ ''See '' @ [CHR 0x27] @ ''docker --help'' @ [CHR 0x27] @ ''.'' @ [CHR 0x0A])]"
    by (simp_all add: noSuchCommand_def noSuchCommand_message_def accented_state_def New_def)
  show ?thesis
    using canonicalized_e_acute ms(3) by (simp add: failing nested accented shown hs ms(1,2) w')
qed

subsection \<open>A failing hook ends the dispatch\<close>

text \<open>
  Claim C2. Let \<open>toks\<close> be the tokens whose name \<^verbatim>\<open>Run\<close> matches: the first two arguments,
  or the first argument when there is no second one, when the second one is empty, or
  when no handler has a method of the two-token name of the first two. Let no token of
  \<open>toks\<close> be empty, let the handler object \<open>h\<close> be the first registered handler that has a
  method of the name of \<open>toks\<close>, and let \<open>h\<close> implement \<^verbatim>\<open>Initializer\<close> with a hook that
  returns the error \<open>err\<close>. Then \<^verbatim>\<open>Run\<close> returns \<open>err\<close> itself, and all that happened is
  the call of the hook: the method is not called, no diagnostic is written and no usage
  function is called. The built-in help action, called with these arguments, does the
  same.
\<close>

theorem Run_Initialize_error:
  assumes "1 < length args \<and> toks = take 2 args \<or>
           0 < length args \<and> toks = [args ! 0] \<and>
           (1 < length args \<longrightarrow> args ! 1 = '''' \<or>
              (\<forall>c\<in>set (handlers (cli st)). MethodByName c (methodName U (take 2 args)) = Invalid))"
    and "'''' \<notin> set toks"
    and "handlers (cli st) = pre @ Object h # post"
    and "\<forall>p\<in>set pre. MethodByName p (methodName U toks) = Invalid"
    and "methods h (methodName U toks) = Some m"
    and "Initialize h = Some init"
    and "init (world st) = (Some err, w)"
  shows "Run U args st =
     (Returned (Some err), st\<lparr>world := w, trace := trace st @ [Initialize_called]\<rparr>) \<and>
   CmdHelp U args st =
     (Returned (Some err), st\<lparr>world := w, trace := trace st @ [Initialize_called]\<rparr>)"
proof -
  let ?st' = "st\<lparr>world := w, trace := trace st @ [Initialize_called]\<rparr>"
  have valid: "MethodByName (Object h) (methodName U toks) \<noteq> Invalid"
    using assms(5) by simp
  have "command U toks st = command_loop U [Object h] toks st"
    using assms(3,4) valid assms(2) by (rule command_first_match)
  also have "\<dots> = (Failed (initErr_value (initErr err)), ?st')"
    using assms(6,7) by (subst command_loop_single [OF valid assms(2)]) simp
  finally have res: "command U toks st = (Failed (initErr_value (initErr err)), ?st')" .
  from assms(1) show ?thesis
  proof (cases rule: resolved_tokens_cases)
    case two
    with res have "command U (take 2 args) st = (Failed (initErr_value (initErr err)), ?st')"
      by simp
    with two(1) show ?thesis
      by (simp add: Run_two_tokens_initErr [where e = "initErr err" and st' = ?st']
          CmdHelp_initErr_two_tokens [where e = "initErr err" and st' = ?st'])
  next
    case one
    with res show ?thesis
      by (simp add: Run_one_token [where r = "Failed (initErr_value (initErr err))" and st' = ?st']
          CmdHelp_initErr_one_token [where e = "initErr err" and st' = ?st'])
  qed
qed

theorem Run_Initialize_error_witness:
  "Run example_tables [''fOO'', ''x''] failing_state =
     (Returned (Some ''cannot connect''), failing_state\<lparr>trace := [Initialize_called]\<rparr>) \<and>
   CmdHelp example_tables [''fOO'', ''x''] failing_state =
     (Returned (Some ''cannot connect''), failing_state\<lparr>trace := [Initialize_called]\<rparr>)"
proof -
  have h1: "1 < length [''fOO'', ''x''] \<and> [''fOO''] = take 2 [''fOO'', ''x''] \<or>
      0 < length [''fOO'', ''x''] \<and> [''fOO''] = [[''fOO'', ''x''] ! 0] \<and>
      (1 < length [''fOO'', ''x''] \<longrightarrow> [''fOO'', ''x''] ! 1 = '''' \<or>
         (\<forall>c\<in>set (handlers (cli failing_state)).
            MethodByName c (methodName example_tables (take 2 [''fOO'', ''x''])) = Invalid))"
    by (simp add: failing_state_def New_def failing_handler_def example_handler_def methodName_fOO_x)
  have h2: "'''' \<notin> set [''fOO'']" by simp
  have h3: "handlers (cli failing_state) = [Self] @ Object failing_handler # [Object example_handler]"
    by (simp add: failing_state_def New_def)
  have h4: "\<forall>p\<in>set [Self]. MethodByName p (methodName example_tables [''fOO'']) = Invalid"
    by (simp add: methodName_FOO)
  have h5: "methods failing_handler (methodName example_tables [''fOO'']) = Some (CmdFunc (record_call ''failing foo''))"
    by (simp add: methodName_FOO failing_handler_def)
  have h6: "Initialize failing_handler = Some failing_Initialize"
    by (simp add: failing_handler_def)
  have h7: "failing_Initialize (world failing_state) = (Some ''cannot connect'', [])"
    by (simp add: failing_Initialize_def failing_state_def)
  show ?thesis
    using Run_Initialize_error [OF h1 h2 h3 h4 h5 h6 h7]
    by (simp add: failing_state_def)
qed

subsection \<open>Unknown commands\<close>

text \<open>
  Claim C3. Let the argument vector be non-empty, and let no handler have a method of
  the one-token name of the first argument nor, when there are at least two arguments,
  of the two-token name of the first two. Then \<^verbatim>\<open>Run\<close> writes the diagnostic that names the
  first argument (\<^verbatim>\<open>docker: '<argument>' is not a docker command.\<close> and, on a second line,
  \<^verbatim>\<open>See 'docker --help'.\<close>) to \<^verbatim>\<open>cli.Stderr\<close>, or to \<^verbatim>\<open>os.Stderr\<close> when that field is \<^verbatim>\<open>nil\<close>,
  and exits the process with status 1. Nothing else happens: no hook and no command
  function is called.
\<close>

theorem Run_no_such_command:
  assumes "0 < length args"
    and "\<forall>c\<in>set (handlers (cli st)). MethodByName c (methodName U [args ! 0]) = Invalid"
    and "1 < length args \<longrightarrow>
           (\<forall>c\<in>set (handlers (cli st)). MethodByName c (methodName U (take 2 args)) = Invalid)"
  shows "Run U args st =
     (Exited 1,
      (let w = (case Stderr (cli st) of None \<Rightarrow> os_Stderr | Some w \<Rightarrow> w)
       in st\<lparr>cli := (cli st)\<lparr>Stderr := Some w\<rparr>,
             trace := trace st @
               [Fprintf w
                  (''docker: '' @ [CHR 0x27] @ args ! 0 @ [CHR 0x27] @ '' is not a docker command.'' @
                   [CHR 0x0A] @ ''See '' @ [CHR 0x27] @ ''docker --help'' @ [CHR 0x27] @ ''.'' @
                   [CHR 0x0A])]\<rparr>))"
proof -
  obtain msg1 where one: "command U [args ! 0] st = (Failed (errorString msg1), st)"
    using command_unmatched [OF assms(2)] by blast
  show ?thesis
  proof (cases "1 < length args")
    case True
    with assms(3) obtain msg2 where "command U (take 2 args) st = (Failed (errorString msg2), st)"
      using command_unmatched by blast
    with True one assms(1) show ?thesis
      by (simp add: Run_def noSuchCommand_eq noSuchCommand_message_def)
  next
    case False
    with one assms(1) show ?thesis
      by (simp add: Run_def noSuchCommand_eq noSuchCommand_message_def)
  qed
qed

theorem Run_no_such_command_witness:
  "Run example_tables [''QUX''] example_state =
     (Exited 1,
      example_state\<lparr>cli := (cli example_state)\<lparr>Stderr := Some os_Stderr\<rparr>,
                    trace := [Fprintf os_Stderr
                      (''docker: '' @ [CHR 0x27] @ ''QUX'' @ [CHR 0x27] @ '' is not a docker command.'' @
                       [CHR 0x0A] @ ''See '' @ [CHR 0x27] @ ''docker --help'' @ [CHR 0x27] @ ''.'' @
                       [CHR 0x0A])]\<rparr>) \<and>
   Run example_tables [[CHR 0xC3, CHR 0xA9]] accented_state =
     (Exited 1,
      accented_state\<lparr>cli := (cli accented_state)\<lparr>Stderr := Some os_Stderr\<rparr>,
                     trace := [Fprintf os_Stderr
                       (''docker: '' @ [CHR 0x27] @ [CHR 0xC3, CHR 0xA9] @ [CHR 0x27] @
                        '' is not a docker command.'' @
                        [CHR 0x0A] @ ''See '' @ [CHR 0x27] @ ''docker --help'' @ [CHR 0x27] @ ''.'' @
                        [CHR 0x0A])]\<rparr>)"
proof -
  have h: "\<forall>c\<in>set (handlers (cli example_state)). MethodByName c (methodName example_tables [[''QUX''] ! 0]) = Invalid"
    by (simp add: example_state_def New_def example_handler_def methodName_QUX)
  have upper: "Run example_tables [''QUX''] example_state =
     (Exited 1,
      example_state\<lparr>cli := (cli example_state)\<lparr>Stderr := Some os_Stderr\<rparr>,
                    trace := [Fprintf os_Stderr
                      (''docker: '' @ [CHR 0x27] @ ''QUX'' @ [CHR 0x27] @ '' is not a docker command.'' @
                       [CHR 0x0A] @ ''See '' @ [CHR 0x27] @ ''docker --help'' @ [CHR 0x27] @ ''.'' @
                       [CHR 0x0A])]\<rparr>)"
    using Run_no_such_command [of "[''QUX'']" example_state, OF _ h]
    by (simp add: example_state_def New_def)
  have g: "\<forall>c\<in>set (handlers (cli accented_state)).
      MethodByName c (methodName example_tables [[[CHR 0xC3, CHR 0xA9]] ! 0]) = Invalid"
    using methodName_e_acute by (simp add: accented_state_def New_def accented_handler_def)
  have accented: "Run example_tables [[CHR 0xC3, CHR 0xA9]] accented_state =
     (Exited 1,
      accented_state\<lparr>cli := (cli accented_state)\<lparr>Stderr := Some os_Stderr\<rparr>,
                     trace := [Fprintf os_Stderr
                       (''docker: '' @ [CHR 0x27] @ [CHR 0xC3, CHR 0xA9] @ [CHR 0x27] @
                        '' is not a docker command.'' @
                        [CHR 0x0A] @ ''See '' @ [CHR 0x27] @ ''docker --help'' @ [CHR 0x27] @ ''.'' @
                        [CHR 0x0A])]\<rparr>)"
    using Run_no_such_command [of "[[CHR 0xC3, CHR 0xA9]]" accented_state, OF _ g]
    by (simp add: accented_state_def New_def)
  from upper accented show ?thesis ..
qed

subsection \<open>Help for an unknown command\<close>

text \<open>
  Claim C4, amended. Let the built-in help action be called with a non-empty argument
  sequence that resolves to no command (no handler has a method of the one-token name of
  the first argument nor, with at least two arguments, of the two-token name). Then the
  help action writes the diagnostic that names the first argument
  (\<^verbatim>\<open>docker: '<argument>' is not a docker command.\<close> and, on a second line,
  \<^verbatim>\<open>See 'docker --help'.\<close>) to the error stream and exits the process with status 1. It
  does not print the general usage and it does not return.
\<close>

theorem CmdHelp_no_such_command:
  assumes "0 < length args"
    and "\<forall>c\<in>set (handlers (cli st)). MethodByName c (methodName U [args ! 0]) = Invalid"
    and "1 < length args \<longrightarrow>
           (\<forall>c\<in>set (handlers (cli st)). MethodByName c (methodName U (take 2 args)) = Invalid)"
  shows "CmdHelp U args st =
     (Exited 1,
      (let w = (case Stderr (cli st) of None \<Rightarrow> os_Stderr | Some w \<Rightarrow> w)
       in st\<lparr>cli := (cli st)\<lparr>Stderr := Some w\<rparr>,
             trace := trace st @
               [Fprintf w
                  (''docker: '' @ [CHR 0x27] @ args ! 0 @ [CHR 0x27] @ '' is not a docker command.'' @
                   [CHR 0x0A] @ ''See '' @ [CHR 0x27] @ ''docker --help'' @ [CHR 0x27] @ ''.'' @
                   [CHR 0x0A])]\<rparr>))"
proof -
  obtain msg1 where one: "command U [args ! 0] st = (Failed (errorString msg1), st)"
    using command_unmatched [OF assms(2)] by blast
  show ?thesis
  proof (cases "1 < length args")
    case True
    with assms(3) obtain msg2 where "command U (take 2 args) st = (Failed (errorString msg2), st)"
      using command_unmatched by blast
    with True one assms(1) show ?thesis
      by (subst CmdHelp.simps) (simp add: noSuchCommand_eq noSuchCommand_message_def)
  next
    case False
    with one assms(1) show ?thesis
      by (subst CmdHelp.simps) (simp add: noSuchCommand_eq noSuchCommand_message_def)
  qed
qed

theorem CmdHelp_no_such_command_witness:
  "CmdHelp example_tables [''QUX'', ''bar''] example_state =
     (Exited 1,
      example_state\<lparr>cli := (cli example_state)\<lparr>Stderr := Some os_Stderr\<rparr>,
                    trace := [Fprintf os_Stderr
                      (''docker: '' @ [CHR 0x27] @ ''QUX'' @ [CHR 0x27] @ '' is not a docker command.'' @
                       [CHR 0x0A] @ ''See '' @ [CHR 0x27] @ ''docker --help'' @ [CHR 0x27] @ ''.'' @
                       [CHR 0x0A])]\<rparr>)"
proof -
  have h1: "\<forall>c\<in>set (handlers (cli example_state)).
      MethodByName c (methodName example_tables [[''QUX'', ''bar''] ! 0]) = Invalid"
    by (simp add: example_state_def New_def example_handler_def methodName_QUX)
  have h2: "1 < length [''QUX'', ''bar''] \<longrightarrow>
      (\<forall>c\<in>set (handlers (cli example_state)).
         MethodByName c (methodName example_tables (take 2 [''QUX'', ''bar''])) = Invalid)"
    by (simp add: example_state_def New_def example_handler_def methodName_QUX_bar)
  show ?thesis
    using CmdHelp_no_such_command [of "[''QUX'', ''bar'']" example_state, OF _ h1 h2]
    by (simp add: example_state_def New_def)
qed

text \<open>
  The claim as the specification states it fails: \<^verbatim>\<open>help foo bar\<close> on a \<^verbatim>\<open>Cli\<close> without
  handlers exits with status 1 after the diagnostic. It does not return \<^verbatim>\<open>nil\<close>, and no
  usage function is called.
\<close>

theorem CmdHelp_unresolved_counterexample:
  "fst (CmdHelp example_tables [''foo'', ''bar''] bare_state) = Exited 1 \<and>
   fst (CmdHelp example_tables [''foo'', ''bar''] bare_state) \<noteq> Returned None \<and>
   trace (snd (CmdHelp example_tables [''foo'', ''bar''] bare_state)) =
     [Fprintf os_Stderr
        (''docker: '' @ [CHR 0x27] @ ''foo'' @ [CHR 0x27] @ '' is not a docker command.'' @
         [CHR 0x0A] @ ''See '' @ [CHR 0x27] @ ''docker --help'' @ [CHR 0x27] @ ''.'' @ [CHR 0x0A])] \<and>
   flag_Usage_called \<notin> set (trace (snd (CmdHelp example_tables [''foo'', ''bar''] bare_state)))"
proof -
  have two: "command example_tables [''foo'', ''bar''] bare_state =
      (Failed (errorString ''command not found''), bare_state)"
    by (simp add: bare_state_def New_def command_def case_evals)
  have one: "command example_tables [''foo''] bare_state =
      (Failed (errorString ''command not found''), bare_state)"
    by (simp add: bare_state_def New_def command_def case_evals)
  have "CmdHelp example_tables [''foo'', ''bar''] bare_state = (Exited 1, noSuchCommand ''foo'' bare_state)"
    by (subst CmdHelp.simps) (simp add: two one)
  then show ?thesis
    by (simp add: noSuchCommand_def noSuchCommand_message_def bare_state_def New_def)
qed

subsection \<open>The error method of \<^verbatim>\<open>initErr\<close> never returns\<close>

text \<open>
  Claim C5. For every \<^verbatim>\<open>initErr\<close> value, the method \<^verbatim>\<open>Error\<close> does not return: it calls
  itself and not the method of the wrapped error, so no message is produced (in
  particular not the message of the wrapped error).
\<close>

theorem Error_initErr_diverges: "Error_initErr err = None"
proof (cases "Error_initErr err")
  case None
  then show ?thesis .
next
  case (Some y)
  have False
    by (rule Error_initErr.raw_induct[where P = "\<lambda>_ _. False", OF _ Some]) blast
  then show ?thesis ..
qed

theorem Error_initErr_diverges_witness: "Error_initErr (initErr ''no daemon'') = None"
  using Error_initErr_diverges [of "initErr ''no daemon''"] by simp

subsection \<open>The earliest handler decides\<close>

text \<open>
  Claim C6, amended. \<^verbatim>\<open>New\<close> puts the \<^verbatim>\<open>Cli\<close> itself before the handlers it is given. For
  tokens none of which is empty, the first registered handler \<open>c\<close> that has a method of
  their name decides the resolution alone: its \<^verbatim>\<open>Initialize\<close> hook runs if it has one; if
  the hook fails, the resolution fails with the error of the hook and no command is
  resolved; otherwise the method of \<open>c\<close> is the command resolved (and the type assertion
  panics if the method is not a command function). The handlers after \<open>c\<close> play no part:
  the result is stated without them.
\<close>

theorem command_earliest_handler_decides:
  assumes "handlers (cli st) = pre @ c # post"
    and "\<forall>p\<in>set pre. MethodByName p (methodName U toks) = Invalid"
    and "MethodByName c (methodName U toks) \<noteq> Invalid"
    and "'''' \<notin> set toks"
  shows "handlers (New hs) = Self # hs \<and>
     command U toks st =
       (case Initializer c of
          None \<Rightarrow>
            (case assert_func (MethodByName c (methodName U toks)) of
               Some f \<Rightarrow> Resolved (methodName U toks) f
             | None \<Rightarrow> Panic, st)
        | Some init \<Rightarrow>
            (case init (world st) of
               (Some err, w) \<Rightarrow>
                 (Failed (initErr_value (initErr err)),
                  st\<lparr>world := w, trace := trace st @ [Initialize_called]\<rparr>)
             | (None, w) \<Rightarrow>
                 (case assert_func (MethodByName c (methodName U toks)) of
                    Some f \<Rightarrow> Resolved (methodName U toks) f
                  | None \<Rightarrow> Panic,
                  st\<lparr>world := w, trace := trace st @ [Initialize_called]\<rparr>)))"
proof
  show "handlers (New hs) = Self # hs"
    by (simp add: New_def)
  have "command U toks st = command_loop U [c] toks st"
    using assms by (rule command_first_match)
  then show "command U toks st =
       (case Initializer c of
          None \<Rightarrow>
            (case assert_func (MethodByName c (methodName U toks)) of
               Some f \<Rightarrow> Resolved (methodName U toks) f
             | None \<Rightarrow> Panic, st)
        | Some init \<Rightarrow>
            (case init (world st) of
               (Some err, w) \<Rightarrow>
                 (Failed (initErr_value (initErr err)),
                  st\<lparr>world := w, trace := trace st @ [Initialize_called]\<rparr>)
             | (None, w) \<Rightarrow>
                 (case assert_func (MethodByName c (methodName U toks)) of
                    Some f \<Rightarrow> Resolved (methodName U toks) f
                  | None \<Rightarrow> Panic,
                  st\<lparr>world := w, trace := trace st @ [Initialize_called]\<rparr>)))"
    by (simp only: command_loop_single [OF assms(3,4)])
qed

theorem command_earliest_handler_decides_witness:
  "handlers (New [Object shadowing_handler, Object example_handler]) =
     [Self, Object shadowing_handler, Object example_handler] \<and>
   command example_tables [''fOO''] shadowing_state =
     (Resolved ''CmdFoo'' (Handler_func (record_call ''shadowing foo'')), shadowing_state) \<and>
   command example_tables [''hELP''] shadowing_state = (Resolved ''CmdHelp'' Cli_CmdHelp, shadowing_state) \<and>
   Run example_tables [''fOO''] shadowing_state =
     (Returned None,
      shadowing_state\<lparr>world := [(''shadowing foo'', [])], trace := [Invoked ''CmdFoo'' []]\<rparr>)"
proof -
  have h1: "handlers (cli shadowing_state) =
      [Self] @ Object shadowing_handler # [Object example_handler]"
    by (simp add: shadowing_state_def New_def)
  have h2: "\<forall>p\<in>set [Self]. MethodByName p (methodName example_tables [''fOO'']) = Invalid"
    by (simp add: methodName_FOO)
  have h3: "MethodByName (Object shadowing_handler) (methodName example_tables [''fOO'']) \<noteq> Invalid"
    by (simp add: methodName_FOO shadowing_handler_def)
  have h4: "'''' \<notin> set [''fOO'']" by simp
  have foo: "handlers (New [Object shadowing_handler, Object example_handler]) =
       [Self, Object shadowing_handler, Object example_handler] \<and>
     command example_tables [''fOO''] shadowing_state =
       (Resolved ''CmdFoo'' (Handler_func (record_call ''shadowing foo'')), shadowing_state)"
    using command_earliest_handler_decides
      [OF h1 h2 h3 h4, of "[Object shadowing_handler, Object example_handler]"]
    by (simp add: methodName_FOO shadowing_handler_def)
  have g1: "handlers (cli shadowing_state) =
      [] @ Self # [Object shadowing_handler, Object example_handler]"
    by (simp add: shadowing_state_def New_def)
  have g2: "\<forall>p\<in>set []. MethodByName p (methodName example_tables [''hELP'']) = Invalid"
    by simp
  have g3: "MethodByName Self (methodName example_tables [''hELP'']) \<noteq> Invalid"
    by (simp add: methodName_hELP)
  have g4: "'''' \<notin> set [''hELP'']" by simp
  have builtin: "command example_tables [''hELP''] shadowing_state = (Resolved ''CmdHelp'' Cli_CmdHelp, shadowing_state)"
    using command_earliest_handler_decides [OF g1 g2 g3 g4, of "[Object shadowing_handler]"]
    by (simp add: methodName_hELP)
  have w: "world shadowing_state = []" and t: "trace shadowing_state = []"
    by (simp_all add: shadowing_state_def)
  have run: "Run example_tables [''fOO''] shadowing_state =
     (Returned None,
      shadowing_state\<lparr>world := [(''shadowing foo'', [])], trace := [Invoked ''CmdFoo'' []]\<rparr>)"
    using foo by (simp add: Run_def call_def record_call_def w t)
  from foo builtin run show ?thesis by simp
qed

text \<open>
  The claim as the specification states it fails: two registered handlers have the
  method \<^verbatim>\<open>CmdFoo\<close>, and the command of the earlier one is neither resolved nor called,
  because its hook fails. (The command of the later one is not called either.)
\<close>

theorem earliest_handler_counterexample:
  "methods failing_handler ''CmdFoo'' = Some (CmdFunc (record_call ''failing foo'')) \<and>
   methods example_handler ''CmdFoo'' = Some (CmdFunc (record_call ''foo'')) \<and>
   handlers (cli failing_state) = [Self, Object failing_handler, Object example_handler] \<and>
   fst (command example_tables [''foo''] failing_state) = Failed (initErr_value (initErr ''cannot connect'')) \<and>
   fst (Run example_tables [''foo''] failing_state) = Returned (Some ''cannot connect'') \<and>
   world (snd (Run example_tables [''foo''] failing_state)) = [] \<and>
   trace (snd (Run example_tables [''foo''] failing_state)) = [Initialize_called]"
proof -
  have one: "command example_tables [''foo''] failing_state =
      (Failed (initErr_value (initErr ''cannot connect'')),
       failing_state\<lparr>trace := [Initialize_called]\<rparr>)"
    by (simp add: failing_state_def New_def command_def failing_handler_def
        failing_Initialize_def case_evals)
  have "Run example_tables [''foo''] failing_state =
      (Returned (Some ''cannot connect''), failing_state\<lparr>trace := [Initialize_called]\<rparr>)"
    by (simp add: Run_def one)
  with one show ?thesis
    by (simp add: failing_state_def New_def failing_handler_def example_handler_def)
qed

subsection \<open>No arguments\<close>

text \<open>
  Claim C7. For the empty argument vector, \<^verbatim>\<open>Run\<close> calls the built-in help action with
  no arguments; the help action calls the usage function of the \<^verbatim>\<open>Cli\<close> if one is set
  and \<^verbatim>\<open>flag.Usage\<close> otherwise, does nothing else, and returns \<^verbatim>\<open>nil\<close>.
\<close>

theorem Run_no_arguments:
  "Run U [] st = CmdHelp U [] st \<and>
   CmdHelp U [] st =
     (Returned None,
      (case Usage (cli st) of
         None \<Rightarrow> st\<lparr>trace := trace st @ [flag_Usage_called]\<rparr>
       | Some u \<Rightarrow> st\<lparr>world := u (world st), trace := trace st @ [Cli_Usage_called]\<rparr>))"
proof
  show "Run U [] st = CmdHelp U [] st"
    by (simp add: Run_def)
  show "CmdHelp U [] st =
     (Returned None,
      (case Usage (cli st) of
         None \<Rightarrow> st\<lparr>trace := trace st @ [flag_Usage_called]\<rparr>
       | Some u \<Rightarrow> st\<lparr>world := u (world st), trace := trace st @ [Cli_Usage_called]\<rparr>))"
    by (simp add: CmdHelp_no_arguments print_usage_def)
qed

theorem Run_no_arguments_witness:
  "Run example_tables [] example_state = (Returned None, example_state\<lparr>trace := [flag_Usage_called]\<rparr>)"
  using Run_no_arguments [of example_tables example_state]
  by (simp add: example_state_def New_def)

subsection \<open>Empty tokens\<close>

text \<open>
  Claim C8. On a \<^verbatim>\<open>Cli\<close> that \<^verbatim>\<open>New\<close> built (its first handler is the \<^verbatim>\<open>Cli\<close> itself), the
  resolution of tokens one of which is empty fails with the error \<^verbatim>\<open>empty command\<close> and
  leaves the state as it was: no command is resolved and no hook runs. \<^verbatim>\<open>Run\<close> treats the
  failure as it treats a command that is not found. When the two-token attempt fails so,
  \<^verbatim>\<open>Run\<close> goes on to the one-token attempt on the first argument; when the one-token
  attempt fails so, \<^verbatim>\<open>Run\<close> writes the diagnostic (naming the empty token) and exits with
  status 1.
\<close>

theorem command_empty_command:
  assumes "handlers (cli st) = Self # hs"
    and "'''' \<in> set toks"
  shows "command U toks st = (Failed (errorString ''empty command''), st) \<and>
     (1 < length args \<and> toks = take 2 args \<longrightarrow>
        Run U args st =
          (case command U [args ! 0] st of
             (Resolved name f, st') \<Rightarrow> invoke U name f (drop 1 args) st'
           | (Failed (initErr_value err), st') \<Rightarrow> (Returned (Some (error err)), st')
           | (Failed (errorString msg), st') \<Rightarrow> (Exited 1, noSuchCommand (args ! 0) st')
           | (Panic, st') \<Rightarrow> (Panicked, st'))) \<and>
     (0 < length args \<and> toks = [args ! 0] \<longrightarrow>
        Run U args st =
          (Exited 1,
           (let w = (case Stderr (cli st) of None \<Rightarrow> os_Stderr | Some w \<Rightarrow> w)
            in st\<lparr>cli := (cli st)\<lparr>Stderr := Some w\<rparr>,
                  trace := trace st @ [Fprintf w (noSuchCommand_message '''')]\<rparr>)))"
proof (intro conjI impI)
  show res: "command U toks st = (Failed (errorString ''empty command''), st)"
    unfolding command_def assms(1) using assms(2) by (rule command_loop_empty_command) simp
  {
    assume a: "1 < length args \<and> toks = take 2 args"
    with res have "command U (take 2 args) st = (Failed (errorString ''empty command''), st)"
      by simp
    with a show "Run U args st =
          (case command U [args ! 0] st of
             (Resolved name f, st') \<Rightarrow> invoke U name f (drop 1 args) st'
           | (Failed (initErr_value err), st') \<Rightarrow> (Returned (Some (error err)), st')
           | (Failed (errorString msg), st') \<Rightarrow> (Exited 1, noSuchCommand (args ! 0) st')
           | (Panic, st') \<Rightarrow> (Panicked, st'))"
      by (auto simp: Run_def split: prod.splits resolution.splits error_value.splits)
  }
  {
    assume a: "0 < length args \<and> toks = [args ! 0]"
    with assms(2) have first: "args ! 0 = ''''" by simp
    with a res have one: "command U [args ! 0] st = (Failed (errorString ''empty command''), st)"
      by simp
    have two: "1 < length args \<longrightarrow>
        (\<exists>msg. command U (take 2 args) st = (Failed (errorString msg), st))"
    proof
      assume "1 < length args"
      with first have "'''' \<in> set (take 2 args)"
        by (cases args) auto
      then show "\<exists>msg. command U (take 2 args) st = (Failed (errorString msg), st)"
        by (rule command_empty_token)
    qed
    from a have "0 < length args" by simp
    from Run_one_token [OF this two one] first show "Run U args st =
          (Exited 1,
           (let w = (case Stderr (cli st) of None \<Rightarrow> os_Stderr | Some w \<Rightarrow> w)
            in st\<lparr>cli := (cli st)\<lparr>Stderr := Some w\<rparr>,
                  trace := trace st @ [Fprintf w (noSuchCommand_message '''')]\<rparr>))"
      by (simp add: noSuchCommand_eq)
  }
qed

theorem command_empty_command_witness:
  "command example_tables [''foo'', ''''] example_state = (Failed (errorString ''empty command''), example_state) \<and>
   Run example_tables [''foo'', ''''] example_state =
     (Returned None,
      example_state\<lparr>world := [(''foo'', [''''])], trace := [Invoked ''CmdFoo'' ['''']]\<rparr>)"
proof -
  have h1: "handlers (cli example_state) = Self # [Object example_handler]"
    by (simp add: example_state_def New_def)
  have h2: "'''' \<in> set [''foo'', '''']" by simp
  have w: "world example_state = []" and t: "trace example_state = []"
    by (simp_all add: example_state_def)
  have one: "command example_tables [''foo''] example_state =
      (Resolved ''CmdFoo'' (Handler_func (record_call ''foo'')), example_state)"
    by (simp add: example_state_def New_def command_def example_handler_def case_evals Let_def)
  show ?thesis
    using command_empty_command [OF h1 h2, of example_tables "[''foo'', '''']"]
    by (simp add: one call_def record_call_def w t)
qed

subsection \<open>What a dispatch does to the \<^verbatim>\<open>Cli\<close>\<close>

text \<open>
  Claim C9, amended. No call of \<^verbatim>\<open>Run\<close> or of the built-in help action changes the
  handler list or the usage function of the \<^verbatim>\<open>Cli\<close>. The \<^verbatim>\<open>Cli\<close> after the call differs
  from the \<^verbatim>\<open>Cli\<close> before it in one case only: the call ends in the exit of the process
  with status 1, the \<^verbatim>\<open>Stderr\<close> field was \<^verbatim>\<open>nil\<close>, and it now holds \<^verbatim>\<open>os.Stderr\<close>. So after
  every call that returns, and after every call on a \<^verbatim>\<open>Cli\<close> whose \<^verbatim>\<open>Stderr\<close> is set, the
  \<^verbatim>\<open>Cli\<close> equals the \<^verbatim>\<open>Cli\<close> before the call.
\<close>

theorem dispatch_frame:
  assumes "Run U args st = (out, st') \<or> CmdHelp U args st = (out, st')"
  shows "handlers (cli st') = handlers (cli st) \<and>
         Usage (cli st') = Usage (cli st) \<and>
         (cli st' \<noteq> cli st \<longrightarrow>
            out = Exited 1 \<and> Stderr (cli st) = None \<and> Stderr (cli st') = Some os_Stderr)"
proof -
  from assms have "cli_frame out st st'"
    by (auto dest: Run_frame CmdHelp_frame)
  then show ?thesis
    by (auto simp: cli_frame_def)
qed

theorem dispatch_frame_witness:
  "fst (Run example_tables [''foo'', ''x''] example_state) = Returned None \<and>
   world (snd (Run example_tables [''foo'', ''x''] example_state)) = [(''foo'', [''x''])] \<and>
   cli (snd (Run example_tables [''foo'', ''x''] example_state)) = cli example_state"
proof -
  have two: "command example_tables [''foo'', ''x''] example_state =
      (Failed (errorString ''command not found''), example_state)"
    by (simp add: example_state_def New_def command_def example_handler_def case_evals Let_def)
  have one: "command example_tables [''foo''] example_state =
      (Resolved ''CmdFoo'' (Handler_func (record_call ''foo'')), example_state)"
    by (simp add: example_state_def New_def command_def example_handler_def case_evals Let_def)
  have w: "world example_state = []" and t: "trace example_state = []"
    by (simp_all add: example_state_def)
  have run: "Run example_tables [''foo'', ''x''] example_state =
      (Returned None,
       example_state\<lparr>world := [(''foo'', [''x''])], trace := [Invoked ''CmdFoo'' [''x'']]\<rparr>)"
    by (simp add: Run_def two one call_def record_call_def w t)
  have "Run example_tables [''foo'', ''x''] example_state =
        (fst (Run example_tables [''foo'', ''x''] example_state), snd (Run example_tables [''foo'', ''x''] example_state)) \<or>
      CmdHelp example_tables [''foo'', ''x''] example_state =
        (fst (Run example_tables [''foo'', ''x''] example_state), snd (Run example_tables [''foo'', ''x''] example_state))"
    by simp
  from dispatch_frame [OF this] show ?thesis
    by (simp add: run)
qed

text \<open>
  The claim as the specification states it fails: \<^verbatim>\<open>Run\<close> with the unknown command
  \<^verbatim>\<open>qux\<close> on a new \<^verbatim>\<open>Cli\<close> writes the field \<^verbatim>\<open>Stderr\<close>, and the \<^verbatim>\<open>Cli\<close> at the exit is not the
  \<^verbatim>\<open>Cli\<close> before the call.
\<close>

theorem dispatch_frame_counterexample:
  "Stderr (cli bare_state) = None \<and>
   fst (Run example_tables [''qux''] bare_state) = Exited 1 \<and>
   Stderr (cli (snd (Run example_tables [''qux''] bare_state))) = Some os_Stderr \<and>
   cli (snd (Run example_tables [''qux''] bare_state)) \<noteq> cli bare_state"
proof -
  have one: "command example_tables [''qux''] bare_state =
      (Failed (errorString ''command not found''), bare_state)"
    by (simp add: bare_state_def New_def command_def case_evals)
  have "Run example_tables [''qux''] bare_state = (Exited 1, noSuchCommand ''qux'' bare_state)"
    by (simp add: Run_def one)
  then show ?thesis
    by (simp add: noSuchCommand_def bare_state_def New_def)
qed

subsection \<open>The flag set of a subcommand\<close>

text \<open>
  Claim C10, amended. The flag set that \<^verbatim>\<open>Subcmd\<close> returns exits on a parse error exactly
  when \<^verbatim>\<open>exitOnError\<close> is true, and continues otherwise. Its short usage prints a newline
  and then one line per synopsis, or a single line without synopsis when the list of
  synopses is empty: the first line starts with \<^verbatim>\<open>Usage:\<close> and a tab, every other line
  with a tab, and each line goes on with \<^verbatim>\<open>docker\<close>, the command name, the marker
  \<^verbatim>\<open>[OPTIONS]\<close> exactly when the flag set has a flag that is not deprecated, and the
  synopsis if it is not empty. After the lines come an empty line and the description.
  So the usage block has as many lines as there are synopses, and one line when there
  are none (for a name and synopses without a newline). The usage of the flag set prints
  the short usage and then the defaults of the flags.
\<close>

theorem Subcmd_usage:
  "(errorHandling (Subcmd name synopses description exitOnError) = ExitOnError \<longleftrightarrow> exitOnError) \<and>
   (errorHandling (Subcmd name synopses description exitOnError) = ContinueOnError \<longleftrightarrow> \<not> exitOnError) \<and>
   FlagSet_ShortUsage (Subcmd name synopses description exitOnError) n =
     (let options = (if 0 < n then '' [OPTIONS]'' else '''')
      in (case synopses of
            [] \<Rightarrow> [CHR 0x0A] @ usage_line (''Usage:'' @ [CHR 0x09]) name options ''''
          | s # ss \<Rightarrow>
              [CHR 0x0A] @ usage_line (''Usage:'' @ [CHR 0x09]) name options s @
              concat (map (\<lambda>s. [CHR 0x0A] @ usage_line [CHR 0x09] name options s) ss))
         @ [CHR 0x0A, CHR 0x0A] @ description @ [CHR 0x0A]) \<and>
   (CHR 0x0A \<notin> set name \<and> (\<forall>s\<in>set synopses. CHR 0x0A \<notin> set s) \<longrightarrow>
      length (usage_block (FlagSet_ShortUsage (Subcmd name synopses description exitOnError) n)) =
        (if synopses = [] then 1 else length synopses)) \<and>
   FlagSet_Usage (Subcmd name synopses description exitOnError) n defaults =
     FlagSet_ShortUsage (Subcmd name synopses description exitOnError) n @ defaults"
proof (intro conjI impI)
  show "errorHandling (Subcmd name synopses description exitOnError) = ExitOnError \<longleftrightarrow> exitOnError"
    by (simp add: Subcmd_def)
  show "errorHandling (Subcmd name synopses description exitOnError) = ContinueOnError \<longleftrightarrow> \<not> exitOnError"
    by (simp add: Subcmd_def)
  show "FlagSet_ShortUsage (Subcmd name synopses description exitOnError) n =
     (let options = (if 0 < n then '' [OPTIONS]'' else '''')
      in (case synopses of
            [] \<Rightarrow> [CHR 0x0A] @ usage_line (''Usage:'' @ [CHR 0x09]) name options ''''
          | s # ss \<Rightarrow>
              [CHR 0x0A] @ usage_line (''Usage:'' @ [CHR 0x09]) name options s @
              concat (map (\<lambda>s. [CHR 0x0A] @ usage_line [CHR 0x09] name options s) ss))
         @ [CHR 0x0A, CHR 0x0A] @ description @ [CHR 0x0A])"
    by (cases synopses)
      (simp_all add: Subcmd_def ShortUsage_def Let_def synopsis_loop_0 del: synopsis_loop.simps)
  show "FlagSet_Usage (Subcmd name synopses description exitOnError) n defaults =
     FlagSet_ShortUsage (Subcmd name synopses description exitOnError) n @ defaults"
    by (simp add: Subcmd_def)
  assume a: "CHR 0x0A \<notin> set name \<and> (\<forall>s\<in>set synopses. CHR 0x0A \<notin> set s)"
  let ?options = "if 0 < n then '' [OPTIONS]'' else ''''"
  let ?syn = "if length synopses = 0 then [''''] else synopses"
  have o: "CHR 0x0A \<notin> set ?options" by simp
  have s: "\<forall>s\<in>set ?syn. CHR 0x0A \<notin> set s" using a by simp
  have "length (usage_block (synopsis_loop 0 ?syn name ?options
      @ CHR 0x0A # CHR 0x0A # (description @ [CHR 0x0A]))) = length ?syn"
    using a o s by (intro usage_block_synopsis_loop) auto
  then show "length (usage_block (FlagSet_ShortUsage (Subcmd name synopses description exitOnError) n)) =
        (if synopses = [] then 1 else length synopses)"
    by (simp add: Subcmd_def ShortUsage_def Let_def del: synopsis_loop.simps split: if_splits)
qed

theorem Subcmd_usage_witness:
  "errorHandling (Subcmd ''cp'' [''SRC DEST'', ''- DEST''] ''Copy files'' True) = ExitOnError \<and>
   errorHandling (Subcmd ''cp'' [''SRC DEST'', ''- DEST''] ''Copy files'' False) = ContinueOnError \<and>
   FlagSet_ShortUsage (Subcmd ''cp'' [''SRC DEST'', ''- DEST''] ''Copy files'' True) 1 =
     [CHR 0x0A] @ ''Usage:'' @ [CHR 0x09] @ ''docker cp [OPTIONS] SRC DEST'' @
     [CHR 0x0A] @ [CHR 0x09] @ ''docker cp [OPTIONS] - DEST'' @
     [CHR 0x0A, CHR 0x0A] @ ''Copy files'' @ [CHR 0x0A] \<and>
   length (usage_block (FlagSet_ShortUsage (Subcmd ''cp'' [''SRC DEST'', ''- DEST''] ''Copy files'' True) 1)) = 2"
  using Subcmd_usage [of "''cp''" "[''SRC DEST'', ''- DEST'']" "''Copy files''" True 1 "[]"]
    Subcmd_usage [of "''cp''" "[''SRC DEST'', ''- DEST'']" "''Copy files''" False 1 "[]"]
  by (simp add: usage_line_def usage_block_def)

text \<open>
  The claim as the specification states it fails for an empty list of synopses: the
  usage block has one line, not one line per synopsis.
\<close>

theorem Subcmd_usage_counterexample:
  "usage_block (FlagSet_ShortUsage (Subcmd ''version'' [] ''Show the Docker version information.'' True) 0) =
     [''Usage:'' @ [CHR 0x09] @ ''docker version''] \<and>
   length (usage_block
     (FlagSet_ShortUsage (Subcmd ''version'' [] ''Show the Docker version information.'' True) 0)) \<noteq>
     length ([] :: string list)"
  by (simp add: Subcmd_def ShortUsage_def usage_block_def)
end
